theory Spec2Isabelle
  imports Main "HOL-Library.Sublist" "HOL-Library.Multiset"
begin

section \<open>The registry synchronisation tool (scripts/shadcn-ui.tsx)\<close>

text \<open>
  A shallow embedding of the command-line tool that compares a remote component registry
  with the local file tree and drives the external installer. Texts are \<open>string\<close>s
  (lists of 8-bit characters, the Latin-1 part of JavaScript's code units); the
  pictographs that the source puts in front of its console messages are left out of the
  message texts. Everything the tool does to the outside (spawning the installer,
  reading the file system, fetching, writing to the console) goes through a
  \<open>platform\<close> of oracles over an abstract world \<open>'w\<close>, and is recorded in a trace.
\<close>

subsection \<open>String primitives of the host language\<close>

text \<open>\<open>s.startsWith(p)\<close>, \<open>s.endsWith(p)\<close> and \<open>s.includes(p)\<close>.\<close>

fun startsWith :: "string \<Rightarrow> string \<Rightarrow> bool" where
  "startsWith s [] = True"
| "startsWith [] (p # ps) = False"
| "startsWith (c # cs) (p # ps) = (c = p \<and> startsWith cs ps)"

definition endsWith :: "string \<Rightarrow> string \<Rightarrow> bool" where
  "endsWith s p = startsWith (rev s) (rev p)"

fun includes_str :: "string \<Rightarrow> string \<Rightarrow> bool" where
  "includes_str [] p = (p = [])"
| "includes_str (c # cs) p = (startsWith (c # cs) p \<or> includes_str cs p)"

text \<open>\<open>s.replace(pat, rep)\<close> with a string pattern: only the first occurrence is replaced.\<close>

fun replace :: "string \<Rightarrow> string \<Rightarrow> string \<Rightarrow> string" where
  "replace [] pat rep = (if pat = [] then rep else [])"
| "replace (c # cs) pat rep =
     (if startsWith (c # cs) pat then rep @ drop (length pat) (c # cs)
      else c # replace cs pat rep)"

text \<open>\<open>s.split(sep)\<close> for a one-character separator, and \<open>lines.join(sep)\<close>.\<close>

fun split :: "string \<Rightarrow> char \<Rightarrow> string list" where
  "split [] sep = [[]]"
| "split (c # cs) sep =
     (if c = sep then [] # split cs sep
      else (case split cs sep of [] \<Rightarrow> [[c]] | l # ls \<Rightarrow> (c # l) # ls))"

fun join :: "string list \<Rightarrow> string \<Rightarrow> string" where
  "join [] sep = []"
| "join [l] sep = l"
| "join (l # m # ls) sep = l @ sep @ join (m # ls) sep"

text \<open>Decimal rendering of a number inside a template literal.\<close>

definition digit_char :: "nat \<Rightarrow> char" where
  "digit_char d = char_of (48 + d mod 10)"

fun show_nat :: "nat \<Rightarrow> string" where
  "show_nat n = (if n < 10 then [digit_char n] else show_nat (n div 10) @ [digit_char n])"

declare show_nat.simps [simp del]

definition show_int :: "int \<Rightarrow> string" where
  "show_int i = (if i < 0 then CHR ''-'' # show_nat (nat (- i)) else show_nat (nat i))"

subsection \<open>Exceptions, effects and the platform\<close>

datatype exn = Error string

datatype effect =
    Spawn string
  | ConsoleWarn string string
  | ConsoleError string string
  | ConsoleLog string
  | Progress string
  | AppExit
  | ProcessExit nat

record registry_response =
  ok :: bool
  status :: nat
  statusText :: string
  json_items :: "exn + string list option"

record ComponentFile =
  path :: string
  content :: string

record details_response =
  d_ok :: bool
  d_status :: nat
  d_statusText :: string
  d_json :: "exn + ComponentFile list"

record 'w platform =
  execSync :: "string \<Rightarrow> 'w \<Rightarrow> (exn + string) \<times> 'w"
  readdirSync :: "string \<Rightarrow> 'w \<Rightarrow> exn + string list"
  statSync :: "string \<Rightarrow> 'w \<Rightarrow> exn + bool"
  readFileSync :: "string \<Rightarrow> 'w \<Rightarrow> exn + string"
  fetch_registry :: "'w \<Rightarrow> exn + registry_response"
  fetch_details :: "string \<Rightarrow> 'w \<Rightarrow> exn + details_response"

type_synonym 'w state = "'w \<times> effect list"

definition emit :: "effect \<Rightarrow> 'w state \<Rightarrow> 'w state" where
  "emit e s = (fst s, snd s @ [e])"

definition spawn :: "'w platform \<Rightarrow> string \<Rightarrow> 'w state \<Rightarrow> (exn + string) \<times> 'w state" where
  "spawn P command s =
     (case execSync P command (fst s) of (r, w') \<Rightarrow> (r, (w', snd s @ [Spawn command])))"

text \<open>\<open>try { body } catch (error) { handler }\<close>.\<close>

definition try_catch ::
  "(exn + 'a) \<times> 's \<Rightarrow> (exn \<Rightarrow> 's \<Rightarrow> (exn + 'a) \<times> 's) \<Rightarrow> (exn + 'a) \<times> 's" where
  "try_catch body handler =
     (case body of (Inl error, s) \<Rightarrow> handler error s | (Inr v, s) \<Rightarrow> (Inr v, s))"

definition message :: "exn \<Rightarrow> string" where
  "message e = (case e of Error m \<Rightarrow> m)"

definition REGISTRY_URL :: string where
  "REGISTRY_URL = ''https://redpanda-ui-registry.netlify.app''"

subsection \<open>Installer Driver: \<open>updateComponent\<close>\<close>

datatype UpdateResult = updated | skipped | failed

definition overwriteFlag :: "bool \<Rightarrow> string" where
  "overwriteFlag forceOverwrite = (if forceOverwrite then ''--overwrite'' else ''--overwrite'')"

definition update_command :: "string \<Rightarrow> bool \<Rightarrow> string" where
  "update_command componentName forceOverwrite =
     ''bun x --bun shadcn@latest add \"'' @ REGISTRY_URL @ ''/r/'' @ componentName @ ''\" ''
       @ overwriteFlag forceOverwrite"

definition updateComponent ::
  "'w platform \<Rightarrow> string \<Rightarrow> bool \<Rightarrow> 'w state \<Rightarrow> (exn + UpdateResult) \<times> 'w state" where
  "updateComponent P componentName forceOverwrite s =
     try_catch
       (case spawn P (update_command componentName forceOverwrite) s of
          (Inl error, s') \<Rightarrow> (Inl error, s')
        | (Inr output, s') \<Rightarrow>
            if includes_str output ''Skipped'' \<and> includes_str output ''files might be identical''
            then (Inr skipped, s')
            else if includes_str output ''Updated'' \<or> includes_str output ''Installing dependencies''
            then (Inr updated, s')
            else (Inr updated, s'))
       (\<lambda>error s'.
          (Inr failed,
           emit (ConsoleError (''Failed to update component \"'' @ componentName @ ''\":'')
                   (message error)) s'))"

subsection \<open>Existence Verifier: \<open>verifyComponentMissing\<close>\<close>

text \<open>
  The character classes of the two regular expressions, on 8-bit characters: \<open>\s\<close>
  (tab, line feed, vertical tab, form feed, carriage return, space, no-break space),
  the line terminators after which \<open>^\<close> matches under the \<open>m\<close> flag, and \<open>\d\<close>.
\<close>

definition is_space :: "char \<Rightarrow> bool" where
  "is_space c = (c \<in> set [CHR 0x09, CHR 0x0A, CHR 0x0B, CHR 0x0C, CHR 0x0D, CHR 0x20, CHR 0xA0])"

definition is_line_terminator :: "char \<Rightarrow> bool" where
  "is_line_terminator c = (c = CHR 0x0A \<or> c = CHR 0x0D)"

definition is_digit :: "char \<Rightarrow> bool" where
  "is_digit c = (48 \<le> (of_char c :: nat) \<and> (of_char c :: nat) \<le> 57)"

text \<open>
  \<open>Number.parseInt\<close> on a non-empty run of decimal digits. (The host language rounds
  values beyond \<open>2^53\<close>; the number is only compared with an array length.)
\<close>

definition parseInt :: "string \<Rightarrow> nat" where
  "parseInt ds = fold (\<lambda>c n. 10 * n + (of_char c - 48)) ds 0"

text \<open>
  \<open>output.match(/Skipped (\d+) files:/)\<close>: the capture group of the leftmost match.
  The greedy \<open>\d+\<close> takes the whole digit run, since the character after it must be a space.
\<close>

definition skippedFiles_at :: "string \<Rightarrow> string option" where
  "skippedFiles_at s =
     (if startsWith s ''Skipped '' then
        (let r = drop 8 s; ds = takeWhile is_digit r in
         if ds \<noteq> [] \<and> startsWith (dropWhile is_digit r) '' files:'' then Some ds else None)
      else None)"

fun skippedFilesMatch :: "string \<Rightarrow> string option" where
  "skippedFilesMatch [] = None"
| "skippedFilesMatch (c # cs) =
     (case skippedFiles_at (c # cs) of Some ds \<Rightarrow> Some ds | None \<Rightarrow> skippedFilesMatch cs)"

text \<open>
  \<open>/^\s*-\s+(src\/[^\s]+)/gm\<close> tried at one line start: the capture group and the length
  of the whole match. Each greedy run is maximal, because the character that has to
  follow it is outside the run's class.
\<close>

definition filePath_at :: "string \<Rightarrow> (string \<times> nat) option" where
  "filePath_at s =
     (let ws1 = takeWhile is_space s in
      case dropWhile is_space s of
        [] \<Rightarrow> None
      | d # r2 \<Rightarrow>
          if d \<noteq> CHR ''-'' then None
          else
            (let ws2 = takeWhile is_space r2; r3 = dropWhile is_space r2 in
             if ws2 = [] \<or> \<not> startsWith r3 ''src/'' then None
             else
               (let p = takeWhile (\<lambda>c. \<not> is_space c) (drop 4 r3) in
                if p = [] then None
                else Some (''src/'' @ p, length ws1 + 1 + length ws2 + 4 + length p))))"

text \<open>
  The \<open>while ((match = filePathRegex.exec(output)) !== null)\<close> loop. \<open>lineStart\<close> says
  whether \<open>^\<close> matches at the current position, \<open>skip\<close> is the distance to the regular
  expression's \<open>lastIndex\<close> (the end of the previous match).
\<close>

fun filePaths_from :: "bool \<Rightarrow> nat \<Rightarrow> string \<Rightarrow> string list" where
  "filePaths_from lineStart skip [] = []"
| "filePaths_from lineStart (Suc k) (c # cs) = filePaths_from (is_line_terminator c) k cs"
| "filePaths_from lineStart 0 (c # cs) =
     (case (if lineStart then filePath_at (c # cs) else None) of
        Some (p, n) \<Rightarrow> p # filePaths_from (is_line_terminator c) (n - 1) cs
      | None \<Rightarrow> filePaths_from (is_line_terminator c) 0 cs)"

definition filePaths :: "string \<Rightarrow> string list" where
  "filePaths output = filePaths_from True 0 output"

text \<open>Lines 253 to 276: what the verifier reads from the captured output.\<close>

definition output_says_missing :: "string \<Rightarrow> bool" where
  "output_says_missing output =
     (if includes_str output ''Skipped'' \<and> includes_str output ''files might be identical'' then
        (case skippedFilesMatch output of
           Some ds \<Rightarrow>
             (let skippedCount = parseInt ds in
              if length (filePaths output) = skippedCount \<and> skippedCount > 0 then False
              else False)
         | None \<Rightarrow> False)
      else True)"

definition verify_command :: "string \<Rightarrow> string" where
  "verify_command componentName =
     ''bun x --bun shadcn@latest add \"'' @ REGISTRY_URL @ ''/r/'' @ componentName @ ''\" 2>&1''"

definition verifyComponentMissing ::
  "'w platform \<Rightarrow> string \<Rightarrow> 'w state \<Rightarrow> (exn + bool) \<times> 'w state" where
  "verifyComponentMissing P componentName s =
     try_catch
       (case spawn P (verify_command componentName) s of
          (Inl error, s') \<Rightarrow> (Inl error, s')
        | (Inr output, s') \<Rightarrow> (Inr (output_says_missing output), s'))
       (\<lambda>error s'.
          (Inr True,
           emit (ConsoleWarn (''Could not verify component \"'' @ componentName @ ''\":'')
                   (message error)) s'))"

subsection \<open>Name Reconciler: the two filters of \<open>getVerifiedMissingComponents\<close>\<close>

definition exactMatches :: "string list \<Rightarrow> string list \<Rightarrow> string list" where
  "exactMatches registryComponents existingComponents =
     filter (\<lambda>comp. comp \<in> set existingComponents) registryComponents"

definition potentialMismatches :: "string list \<Rightarrow> string list \<Rightarrow> string list" where
  "potentialMismatches registryComponents existingComponents =
     filter (\<lambda>comp. \<not> comp \<in> set existingComponents) registryComponents"

subsection \<open>Diff Renderer: \<open>generateDiff\<close>\<close>

text \<open>
  \<open>xs[i]\<close> is \<open>undefined\<close> past the end of the array, and \<open>lines[i] || ''\<close> turns
  both \<open>undefined\<close> and the empty line into the empty string.
\<close>

definition at_index :: "string list \<Rightarrow> nat \<Rightarrow> string option" where
  "at_index ls i = (if i < length ls then Some (ls ! i) else None)"

definition or_empty :: "string option \<Rightarrow> string" where
  "or_empty l = (case l of None \<Rightarrow> [] | Some t \<Rightarrow> t)"

record diff_state =
  hunkStart :: int
  hunkLocalStart :: int
  hunkRegistryStart :: int
  hunkLines :: "string list"
  diffLines :: "string list"

definition hunk_header :: "int \<Rightarrow> nat \<Rightarrow> int \<Rightarrow> nat \<Rightarrow> string" where
  "hunk_header a c b d =
     ''@@ -'' @ show_int a @ '','' @ show_nat c @ '' +'' @ show_int b @ '','' @ show_nat d @ '' @@''"

text \<open>The header and the lines of the open hunk are appended to the output (lines 98 to 102, 111 to 115).\<close>

definition push_hunk :: "diff_state \<Rightarrow> diff_state" where
  "push_hunk st =
     (let localCount = length (filter (\<lambda>line. startsWith line ''-'') (hunkLines st));
          registryCount = length (filter (\<lambda>line. startsWith line ''+'') (hunkLines st))
      in st \<lparr> diffLines := diffLines st
                  @ [hunk_header (hunkLocalStart st + 1) localCount
                       (hunkRegistryStart st + 1) registryCount]
                  @ hunkLines st \<rparr>)"

text \<open>One iteration of the \<open>for\<close> loop, at index \<open>i\<close>.\<close>

definition diff_step :: "string list \<Rightarrow> string list \<Rightarrow> nat \<Rightarrow> diff_state \<Rightarrow> diff_state" where
  "diff_step localLines registryLines i st =
     (let localLine = or_empty (at_index localLines i);
          registryLine = or_empty (at_index registryLines i)
      in
        if localLine \<noteq> registryLine then
          (let st1 = (if hunkStart st = - 1
                      then st \<lparr> hunkStart := int i, hunkLocalStart := int i,
                                hunkRegistryStart := int i \<rparr>
                      else st);
               st2 = (if at_index localLines i \<noteq> None
                      then st1 \<lparr> hunkLines := hunkLines st1 @ [''-'' @ localLine] \<rparr>
                      else st1);
               st3 = (if at_index registryLines i \<noteq> None
                      then st2 \<lparr> hunkLines := hunkLines st2 @ [''+'' @ registryLine] \<rparr>
                      else st2)
           in st3)
        else if hunkStart st \<noteq> - 1 then
          (push_hunk st) \<lparr> hunkStart := - 1, hunkLines := [] \<rparr>
        else st)"

definition generateDiff_lines :: "string \<Rightarrow> string \<Rightarrow> string \<Rightarrow> string list" where
  "generateDiff_lines localContent registryContent fileName =
     (let localLines = split localContent (CHR 0x0A);
          registryLines = split registryContent (CHR 0x0A);
          st0 = \<lparr> hunkStart = - 1, hunkLocalStart = - 1, hunkRegistryStart = - 1,
                  hunkLines = [],
                  diffLines = [''--- a/'' @ fileName, ''+++ b/'' @ fileName] \<rparr>;
          maxLines = max (length localLines) (length registryLines);
          st = fold (diff_step localLines registryLines) [0..<maxLines] st0
      in diffLines (if hunkStart st \<noteq> - 1 then push_hunk st else st))"

definition generateDiff :: "string \<Rightarrow> string \<Rightarrow> string \<Rightarrow> string" where
  "generateDiff localContent registryContent fileName =
     join (generateDiff_lines localContent registryContent fileName) [CHR 0x0A]"

text \<open>
  Applying a diff, in the words of the specification: the emitted lines after the two
  file headers are taken in order; a hunk header moves to its starting line, a \<open>-\<close> line
  deletes the line there, a \<open>+\<close> line inserts the line it carries.
\<close>

definition header_start :: "string \<Rightarrow> nat" where
  "header_start l = parseInt (takeWhile is_digit (drop 4 l))"

fun patch_line :: "string \<Rightarrow> nat \<times> string list \<Rightarrow> nat \<times> string list" where
  "patch_line [] (pos, ws) = (pos, ws)"
| "patch_line (c # t) (pos, ws) =
     (if c = CHR ''@'' then (header_start (c # t) - 1, ws)
      else if c = CHR ''-'' then (pos, take pos ws @ drop (Suc pos) ws)
      else if c = CHR ''+'' then (Suc pos, take pos ws @ [t] @ drop pos ws)
      else (pos, ws))"

definition apply_diff :: "string list \<Rightarrow> string list \<Rightarrow> string list" where
  "apply_diff localLines emitted = snd (fold patch_line (drop 2 emitted) (0, localLines))"

text \<open>The state of the loop at index \<open>i\<close>, seen through the lines it has produced.\<close>

definition patch_inv :: "string list \<Rightarrow> string list \<Rightarrow> nat \<Rightarrow> diff_state \<Rightarrow> bool" where
  "patch_inv L R i st =
     (2 \<le> length (diffLines st)
      \<and> (if hunkStart st = - 1 then
            hunkLines st = [] \<and> i \<le> min (length L) (length R)
            \<and> snd (fold patch_line (drop 2 (diffLines st)) (0, L)) = take i R @ drop i L
          else
            (\<exists>s. hunkLocalStart st = int s
               \<and> fold patch_line (hunkLines st)
                    (s, snd (fold patch_line (drop 2 (diffLines st)) (0, L)))
                   = (min i (length R), take i R @ drop i L))))"

subsection \<open>Local Inventory Scanner: \<open>getExistingComponents\<close>\<close>

definition directories :: "(string \<times> string list) list" where
  "directories =
     [(''./src/components'', [''.tsx'', ''.json'']),
      (''./src/icons'', [''.tsx'']),
      (''./src/hooks'', [''.ts'', ''.tsx''])]"

text \<open>
  \<open>join(dirPath, file)\<close> of the path module, for a directory of the list above and an
  entry name returned by \<open>readdirSync\<close>: the leading \<open>./\<close> is normalised away.
\<close>

definition path_join :: "string \<Rightarrow> string \<Rightarrow> string" where
  "path_join dirPath file =
     (if startsWith dirPath ''./'' then drop 2 dirPath else dirPath) @ ''/'' @ file"

text \<open>
  The inner loop over the entries of one directory. \<open>components\<close> is the array being
  filled; a \<open>statSync\<close> that throws leaves the loop with what was pushed so far.
\<close>

fun scan_files ::
  "'w platform \<Rightarrow> 'w \<Rightarrow> string \<Rightarrow> string list \<Rightarrow> string list \<Rightarrow> string list
     \<Rightarrow> (exn + unit) \<times> string list" where
  "scan_files P w dirPath extensions [] components = (Inr (), components)"
| "scan_files P w dirPath extensions (file # files) components =
     (case statSync P (path_join dirPath file) w of
        Inl error \<Rightarrow> (Inl error, components)
      | Inr isFile \<Rightarrow>
          if isFile then
            (case find (\<lambda>ext. endsWith file ext) extensions of
               Some matchingExtension \<Rightarrow>
                 (let componentName = replace file matchingExtension [] in
                  if componentName \<noteq> ''index''
                  then scan_files P w dirPath extensions files (components @ [componentName])
                  else scan_files P w dirPath extensions files components)
             | None \<Rightarrow> scan_files P w dirPath extensions files components)
          else scan_files P w dirPath extensions files components)"

fun scan_directories ::
  "'w platform \<Rightarrow> 'w \<Rightarrow> (string \<times> string list) list \<Rightarrow> string list
     \<Rightarrow> (exn + unit) \<times> string list" where
  "scan_directories P w [] components = (Inr (), components)"
| "scan_directories P w ((dirPath, extensions) # ds) components =
     (case try_catch
             (case readdirSync P dirPath w of
                Inl error \<Rightarrow> (Inl error, components)
              | Inr files \<Rightarrow> scan_files P w dirPath extensions files components)
             (\<lambda>error components'. (Inr (), components'))
      of (Inl error, components') \<Rightarrow> (Inl error, components')
       | (Inr u, components') \<Rightarrow> scan_directories P w ds components')"

definition check_globals :: "'w platform \<Rightarrow> 'w \<Rightarrow> string list \<Rightarrow> (exn + unit) \<times> string list" where
  "check_globals P w components =
     try_catch
       (case statSync P ''./src/globals.css'' w of
          Inl error \<Rightarrow> (Inl error, components)
        | Inr isFile \<Rightarrow>
            if isFile then (Inr (), components @ [''theme'']) else (Inr (), components))
       (\<lambda>error components'. (Inr (), components'))"

definition scan_from ::
  "'w platform \<Rightarrow> 'w \<Rightarrow> (string \<times> string list) list \<Rightarrow> exn + string list" where
  "scan_from P w dirs =
     (case scan_directories P w dirs [] of
        (Inl error, components) \<Rightarrow> Inl error
      | (Inr u, components) \<Rightarrow>
          (case check_globals P w components of
             (Inl error, components') \<Rightarrow> Inl error
           | (Inr u', components') \<Rightarrow> Inr components'))"

definition getExistingComponents :: "'w platform \<Rightarrow> 'w \<Rightarrow> exn + string list" where
  "getExistingComponents P w = scan_from P w directories"

text \<open>
  The names one directory contributes, written without the loop: the entries up to the
  first one whose \<open>statSync\<close> throws, each regular file with a recognized extension
  giving its name with the first occurrence of that extension removed, \<open>index\<close> left out.
\<close>

definition stat_ok :: "'w platform \<Rightarrow> 'w \<Rightarrow> string \<Rightarrow> string \<Rightarrow> bool" where
  "stat_ok P w dirPath file =
     (case statSync P (path_join dirPath file) w of Inl error \<Rightarrow> False | Inr isFile \<Rightarrow> True)"

definition file_names :: "'w platform \<Rightarrow> 'w \<Rightarrow> string \<Rightarrow> string list \<Rightarrow> string \<Rightarrow> string list" where
  "file_names P w dirPath extensions file =
     (case statSync P (path_join dirPath file) w of
        Inl error \<Rightarrow> []
      | Inr isFile \<Rightarrow>
          if isFile then
            (case find (\<lambda>ext. endsWith file ext) extensions of
               Some matchingExtension \<Rightarrow>
                 if replace file matchingExtension [] \<noteq> ''index''
                 then [replace file matchingExtension []] else []
             | None \<Rightarrow> [])
          else [])"

definition dir_names :: "'w platform \<Rightarrow> 'w \<Rightarrow> string \<times> string list \<Rightarrow> string list" where
  "dir_names P w d =
     (case readdirSync P (fst d) w of
        Inl error \<Rightarrow> []
      | Inr files \<Rightarrow>
          concat (map (file_names P w (fst d) (snd d)) (takeWhile (stat_ok P w (fst d)) files)))"

definition theme_names :: "'w platform \<Rightarrow> 'w \<Rightarrow> string list" where
  "theme_names P w =
     (case statSync P ''./src/globals.css'' w of
        Inl error \<Rightarrow> []
      | Inr isFile \<Rightarrow> if isFile then [''theme''] else [])"

subsection \<open>Registry Client\<close>

definition fetchRegistryComponents :: "'w platform \<Rightarrow> 'w \<Rightarrow> exn + string list" where
  "fetchRegistryComponents P w =
     (case fetch_registry P w of
        Inl error \<Rightarrow> Inl error
      | Inr response \<Rightarrow>
          if \<not> ok response then
            Inl (Error (''Failed to fetch registry: '' @ show_nat (status response) @ '' ''
                          @ statusText response))
          else
            (case json_items response of
               Inl error \<Rightarrow> Inl error
             | Inr None \<Rightarrow> Inl (Error ''Invalid registry format: missing items array'')
             | Inr (Some names) \<Rightarrow>
                 Inr (filter (\<lambda>name. \<not> includes_str name ''-demo'' \<and> name \<noteq> ''index''
                                \<and> name \<noteq> ''theme'') names)))"

definition fetchComponentDetails :: "'w platform \<Rightarrow> string \<Rightarrow> 'w \<Rightarrow> exn + ComponentFile list" where
  "fetchComponentDetails P componentName w =
     (case fetch_details P componentName w of
        Inl error \<Rightarrow> Inl error
      | Inr response \<Rightarrow>
          if \<not> d_ok response then
            Inl (Error (''Failed to fetch component \"'' @ componentName @ ''\": ''
                          @ show_nat (d_status response) @ '' '' @ d_statusText response))
          else d_json response)"

subsection \<open>Name Reconciler and verification loop: \<open>getVerifiedMissingComponents\<close>\<close>

definition emit_all :: "effect list \<Rightarrow> 'w state \<Rightarrow> 'w state" where
  "emit_all es s = (fst s, snd s @ es)"

fun verify_each ::
  "'w platform \<Rightarrow> nat \<Rightarrow> nat \<Rightarrow> string list \<Rightarrow> string list \<Rightarrow> string list \<Rightarrow> 'w state
     \<Rightarrow> (exn + string list \<times> string list) \<times> 'w state" where
  "verify_each P n i [] verifiedMissing alreadyInstalled s =
     (Inr (verifiedMissing, alreadyInstalled), s)"
| "verify_each P n i (component # rest) verifiedMissing alreadyInstalled s =
     (case verifyComponentMissing P component
             (emit (Progress (''Checking '' @ component @ '' ('' @ show_nat (i + 1) @ ''/''
                                @ show_nat n @ '')'')) s) of
        (Inl error, s') \<Rightarrow> (Inl error, s')
      | (Inr missing, s') \<Rightarrow>
          if missing
          then verify_each P n (i + 1) rest (verifiedMissing @ [component]) alreadyInstalled s'
          else verify_each P n (i + 1) rest verifiedMissing (alreadyInstalled @ [component]) s')"

definition getVerifiedMissingComponents ::
  "'w platform \<Rightarrow> string list \<Rightarrow> string list \<Rightarrow> 'w state \<Rightarrow> (exn + string list) \<times> 'w state" where
  "getVerifiedMissingComponents P registryComponents existingComponents s =
     (let s1 = emit (Progress ''Analyzing component names...'') s;
          exact = exactMatches registryComponents existingComponents;
          mismatches = potentialMismatches registryComponents existingComponents;
          s2 = emit (Progress (show_nat (length exact)
                                 @ '' components found with exact name matches'')) s1
      in
        if length mismatches = 0 then
          (Inr [],
           emit (Progress ''All registry components have exact matches - no verification needed'') s2)
        else
          (case verify_each P (length mismatches) 0 mismatches [] []
                  (emit (Progress (''Verifying '' @ show_nat (length mismatches)
                                     @ '' components with potential name differences...'')) s2) of
             (Inl error, s3) \<Rightarrow> (Inl error, s3)
           | (Inr (verifiedMissing, alreadyInstalled), s3) \<Rightarrow>
               (let s4 =
                      (if length alreadyInstalled > 0 then
                         emit_all
                           ([ConsoleLog (''Found '' @ show_nat (length alreadyInstalled)
                               @ '' components already installed (but under different names):'')]
                            @ map (\<lambda>comp. ConsoleLog (''   - '' @ comp @ '': already added''))
                                alreadyInstalled
                            @ [ConsoleLog []]) s3
                       else s3)
                in (Inr verifiedMissing,
                    emit (Progress (''Verification complete: '' @ show_nat (length verifiedMissing)
                                      @ '' missing, '' @ show_nat (length alreadyInstalled)
                                      @ '' already installed'')) s4))))"

subsection \<open>Diff Renderer: \<open>getLocalFilePath\<close>\<close>

text \<open>A value counts as true in a condition when it is defined and not the empty string.\<close>

definition truthy :: "string option \<Rightarrow> bool" where
  "truthy v = (case v of None \<Rightarrow> False | Some t \<Rightarrow> t \<noteq> [])"

definition pathMappings :: "(string \<times> string) list" where
  "pathMappings =
     [(''registry/components'', ''src/components''),
      (''registry/hooks'', ''src/hooks''),
      (''registry/lib'', ''src/lib''),
      (''registry/icons'', ''src/components/icons'')]"

definition mapped_path :: "string \<Rightarrow> string" where
  "mapped_path registryPath =
     (case find (\<lambda>m. startsWith registryPath (fst m)) pathMappings of
        Some m \<Rightarrow> replace registryPath (fst m) (snd m)
      | None \<Rightarrow> registryPath)"

definition index_path :: "string \<Rightarrow> string \<Rightarrow> string" where
  "index_path registryPath localPath =
     (if includes_str registryPath ''index.tsx'' then
        (let parts = split localPath (CHR ''/'');
             componentDir = (if 2 \<le> length parts then at_index parts (length parts - 2) else None)
         in if truthy componentDir \<and> componentDir \<noteq> Some ''components''
            then ''src/components/'' @ or_empty componentDir @ ''.tsx''
            else localPath)
      else localPath)"

definition getLocalFilePath :: "'w platform \<Rightarrow> 'w \<Rightarrow> string \<Rightarrow> string \<Rightarrow> string option" where
  "getLocalFilePath P w componentName registryPath =
     (let localPath = index_path registryPath (mapped_path registryPath) in
      case statSync P localPath w of
        Inr isFile \<Rightarrow> if isFile then Some localPath else None
      | Inl error \<Rightarrow>
          find (\<lambda>alt. statSync P alt w = Inr True)
            [replace localPath ''.tsx'' ''.ts'',
             replace localPath ''.ts'' ''.tsx'',
             replace localPath ''src/components/'' ''src/components/ui/'',
             ''src/components/'' @ componentName @ ''.tsx'',
             ''src/components/ui/'' @ componentName @ ''.tsx''])"

subsection \<open>Session Controller\<close>

record args =
  isAddMissing :: bool
  isAddAll :: bool
  isForce :: bool
  isDiff :: bool
  componentArg :: "string option"
  hasNoArgs :: bool

text \<open>\<open>argv\<close> is \<open>process.argv\<close>: the interpreter, the script, then the arguments.\<close>

definition parse_args :: "string list \<Rightarrow> args" where
  "parse_args argv =
     \<lparr> isAddMissing = (''--add-missing'' \<in> set argv),
       isAddAll = (''--add-all'' \<in> set argv),
       isForce = (''--force'' \<in> set argv),
       isDiff = (''--diff'' \<in> set argv),
       componentArg =
         find (\<lambda>arg. \<not> startsWith arg ''-'' \<and> Some arg \<noteq> at_index argv 0
                      \<and> Some arg \<noteq> at_index argv 1) argv,
       hasNoArgs = (length argv \<le> 2) \<rparr>"

datatype mode = view_mode | installing | confirming | results | diff_mode

record DiffRecord =
  d_fileName :: string
  d_diff :: string
  d_localPath :: "string option"

record app =
  a_registryComponents :: "string list"
  a_existingComponents :: "string list"
  a_missingComponents :: "string list"
  a_loading :: bool
  a_error :: "string option"
  a_mode :: mode
  a_updateResults :: "(string \<times> UpdateResult) list"
  a_diffResults :: "DiffRecord list"

definition initial_app :: app where
  "initial_app =
     \<lparr> a_registryComponents = [], a_existingComponents = [], a_missingComponents = [],
       a_loading = True, a_error = None, a_mode = view_mode, a_updateResults = [],
       a_diffResults = [] \<rparr>"

text \<open>The four groups of names, as \<open>RegistryBreakdown\<close> and the dry run compute them.\<close>

definition is_hook :: "string \<Rightarrow> bool" where
  "is_hook name = startsWith name ''use-''"

definition is_icon :: "string \<Rightarrow> bool" where
  "is_icon name = endsWith name ''-icon''"

definition components_of :: "string list \<Rightarrow> string list" where
  "components_of names =
     filter (\<lambda>name. \<not> startsWith name ''use-'' \<and> \<not> endsWith name ''-icon'' \<and> name \<noteq> ''theme'') names"

definition hooks_of :: "string list \<Rightarrow> string list" where
  "hooks_of names = filter (\<lambda>name. startsWith name ''use-'') names"

definition icons_of :: "string list \<Rightarrow> string list" where
  "icons_of names = filter (\<lambda>name. endsWith name ''-icon'') names"

definition theme_of :: "string list \<Rightarrow> string list" where
  "theme_of names = filter (\<lambda>name. name = ''theme'') names"

record breakdown =
  b_total :: nat
  b_components :: "string list"
  b_hooks :: "string list"
  b_icons :: "string list"
  b_theme :: "string list"
  b_missing_components :: "string list"
  b_missing_hooks :: "string list"
  b_missing_icons :: "string list"
  b_missing_theme :: "string list"
  b_installed :: "string list"
  b_verified_missing :: nat

definition RegistryBreakdown :: "string list \<Rightarrow> string list \<Rightarrow> string list \<Rightarrow> breakdown" where
  "RegistryBreakdown registryComponents existingComponents missingComponents =
     \<lparr> b_total = length registryComponents,
       b_components = components_of registryComponents,
       b_hooks = hooks_of registryComponents,
       b_icons = icons_of registryComponents,
       b_theme = theme_of registryComponents,
       b_missing_components =
         filter (\<lambda>comp. comp \<in> set missingComponents) (components_of registryComponents),
       b_missing_hooks =
         filter (\<lambda>hook. hook \<in> set missingComponents) (hooks_of registryComponents),
       b_missing_icons =
         filter (\<lambda>icon. icon \<in> set missingComponents) (icons_of registryComponents),
       b_missing_theme =
         filter (\<lambda>t. t \<in> set missingComponents) (theme_of registryComponents),
       b_installed = existingComponents,
       b_verified_missing = length missingComponents \<rparr>"

definition dry_run_log :: "string list \<Rightarrow> effect list" where
  "dry_run_log regComponents =
     [ConsoleLog ''DRY RUN: --add-all flag detected'', ConsoleLog [],
      ConsoleLog (''Would install '' @ show_nat (length regComponents) @ '' registry components:''),
      ConsoleLog []]
     @ (if length (components_of regComponents) > 0
        then [ConsoleLog (''Components ('' @ show_nat (length (components_of regComponents)) @ ''): ''
                            @ join (components_of regComponents) '', '')] else [])
     @ (if length (hooks_of regComponents) > 0
        then [ConsoleLog (''Hooks ('' @ show_nat (length (hooks_of regComponents)) @ ''): ''
                            @ join (hooks_of regComponents) '', '')] else [])
     @ (if length (icons_of regComponents) > 0
        then [ConsoleLog (''Icons ('' @ show_nat (length (icons_of regComponents)) @ ''): ''
                            @ join (icons_of regComponents) '', '')] else [])
     @ (if length (theme_of regComponents) > 0
        then [ConsoleLog (''Theme ('' @ show_nat (length (theme_of regComponents)) @ ''): ''
                            @ join (theme_of regComponents) '', '')] else [])
     @ [ConsoleLog [], ConsoleLog ''To actually install all components, run:'',
        ConsoleLog ''   bun scripts/shadcn-ui.tsx --add-all --force'', ConsoleLog [],
        ConsoleLog ''This will overwrite all existing components with registry versions!'',
        AppExit]"

definition usage_log :: "effect list" where
  "usage_log =
     [ConsoleLog ''Unknown arguments or flags provided'',
      ConsoleLog ''Usage: bun scripts/shadcn-ui.tsx [component-name] [--add-missing] [--add-all] [--force] [--diff]'',
      ConsoleLog ''  --diff: Show differences between local and registry versions'',
      ConsoleLog ''  --add-missing: Install all missing components'',
      ConsoleLog ''  --add-all: Show what components would be installed (dry run)'',
      ConsoleLog ''  --add-all --force: Install all registry components (overwriting existing ones)'',
      ConsoleLog ''  --force: Install without confirmation'',
      AppExit]"

text \<open>The loop over \<open>componentDetails.files\<close> of the diff mode.\<close>

definition diff_file :: "'w platform \<Rightarrow> 'w \<Rightarrow> string \<Rightarrow> ComponentFile \<Rightarrow> DiffRecord" where
  "diff_file P w componentName file =
     (let localPath = getLocalFilePath P w componentName (path file);
          localContent =
            (if truthy localPath then
               (case readFileSync P (or_empty localPath) w of
                  Inl error \<Rightarrow> []
                | Inr text \<Rightarrow> text)
             else [])
      in \<lparr> d_fileName = path file,
           d_diff = generateDiff localContent (content file) (path file),
           d_localPath = localPath \<rparr>)"

definition show_diff :: "'w platform \<Rightarrow> string \<Rightarrow> app \<Rightarrow> 'w state \<Rightarrow> (exn + unit) \<times> app \<times> 'w state" where
  "show_diff P componentName ap s =
     (let s1 = emit (Progress (''Fetching component details for \"'' @ componentName @ ''\"...'')) s in
      case fetchComponentDetails P componentName (fst s1) of
        Inl error \<Rightarrow>
          (Inr (),
           ap \<lparr> a_error := Some (''Failed to fetch component details: '' @ message error) \<rparr>, s1)
      | Inr files \<Rightarrow>
          (Inr (),
           ap \<lparr> a_diffResults := map (diff_file P (fst s1) componentName) files,
                a_mode := diff_mode \<rparr>, s1))"

text \<open>The branches of \<open>loadData\<close> after the analysis (lines 803 to 928).\<close>

definition dispatch ::
  "'w platform \<Rightarrow> args \<Rightarrow> string list \<Rightarrow> string list \<Rightarrow> app \<Rightarrow> 'w state
     \<Rightarrow> (exn + unit) \<times> app \<times> 'w state" where
  "dispatch P a regComponents verifiedMissing ap s =
     (if isAddAll a then
        (if length regComponents > 0 then
           (if isForce a
            then (Inr (), ap \<lparr> a_missingComponents := regComponents, a_mode := installing \<rparr>, s)
            else (Inr (), ap, emit_all (dry_run_log regComponents) s))
         else
           (Inr (), ap,
            emit_all [ConsoleLog ''No registry components found to install!'', AppExit] s))
      else if isAddMissing a then
        (if length verifiedMissing > 0
         then (Inr (), ap \<lparr> a_mode := installing \<rparr>, s)
         else
           (Inr (), ap,
            emit_all [ConsoleLog ''All registry components are already installed!'', AppExit] s))
      else if truthy (componentArg a) then
        (let name = or_empty (componentArg a) in
         if name \<in> set regComponents then
           (if isDiff a then show_diff P name ap s
            else if isForce a then
              (case updateComponent P name True
                      (emit (ConsoleLog (''Installing component \"'' @ name @ ''\" with --force...'')) s) of
                 (Inl error, s') \<Rightarrow> (Inl error, ap, s')
               | (Inr result, s') \<Rightarrow>
                   (Inr (),
                    ap \<lparr> a_updateResults := [(name, result)], a_mode := results \<rparr>,
                    emit
                      (if result = failed
                       then ConsoleLog (''Component \"'' @ name
                              @ ''\" installation failed. Check the error messages above.'')
                       else ConsoleLog (''Component \"'' @ name @ ''\" installation result: ''
                              @ (case result of updated \<Rightarrow> ''updated'' | skipped \<Rightarrow> ''skipped''
                                 | failed \<Rightarrow> ''failed'')))
                      s'))
            else (Inr (), ap \<lparr> a_mode := confirming \<rparr>, s))
         else
           (Inr (), ap,
            emit_all
              [ConsoleLog (''Component \"'' @ name @ ''\" not found in registry''),
               ConsoleLog (''Available components: '' @ join regComponents '', ''),
               AppExit] s))
      else if \<not> hasNoArgs a then (Inr (), ap, emit_all usage_log s)
      else (Inr (), ap, s))"

definition load_steps ::
  "'w platform \<Rightarrow> args \<Rightarrow> app \<Rightarrow> 'w state \<Rightarrow> (exn + unit) \<times> app \<times> 'w state" where
  "load_steps P a ap s =
     (let s1 = emit (Progress ''Fetching registry components...'') s in
      case fetchRegistryComponents P (fst s1) of
        Inl error \<Rightarrow> (Inl error, ap, s1)
      | Inr regComponents \<Rightarrow>
          (case getExistingComponents P (fst s1) of
             Inl error \<Rightarrow> (Inl error, ap, s1)
           | Inr exComponents \<Rightarrow>
               (let s2 = emit_all
                           [Progress (''Found '' @ show_nat (length regComponents)
                                        @ '' registry components''),
                            Progress (''Found '' @ show_nat (length exComponents)
                                        @ '' local components'')] s1;
                    ap1 = ap \<lparr> a_registryComponents := regComponents,
                               a_existingComponents := exComponents \<rparr>
                in
                  case getVerifiedMissingComponents P regComponents exComponents s2 of
                    (Inl error, s3) \<Rightarrow> (Inl error, ap1, s3)
                  | (Inr verifiedMissing, s3) \<Rightarrow>
                      dispatch P a regComponents verifiedMissing
                        (ap1 \<lparr> a_missingComponents := verifiedMissing, a_loading := False \<rparr>)
                        (emit (Progress ''Analysis complete'') s3))))"

definition loadData :: "'w platform \<Rightarrow> args \<Rightarrow> app \<Rightarrow> 'w state \<Rightarrow> app \<times> 'w state" where
  "loadData P a ap s =
     (case load_steps P a ap s of
        (Inl error, ap', s') \<Rightarrow> (ap' \<lparr> a_error := Some (message error), a_loading := False \<rparr>, s')
      | (Inr u, ap', s') \<Rightarrow> (ap', s'))"

text \<open>\<open>UpdateProgressComponent\<close>: one installer run per component, in order, always forced.\<close>

fun install_each ::
  "'w platform \<Rightarrow> string list \<Rightarrow> (string \<times> UpdateResult) list \<Rightarrow> 'w state
     \<Rightarrow> (exn + (string \<times> UpdateResult) list) \<times> 'w state" where
  "install_each P [] rs s = (Inr rs, s)"
| "install_each P (component # rest) rs s =
     (case updateComponent P component True s of
        (Inl error, s') \<Rightarrow> (Inl error, s')
      | (Inr result, s') \<Rightarrow> install_each P rest (rs @ [(component, result)]) s')"

text \<open>
  \<open>ConfirmationPrompt\<close>: a key press is the \<open>return\<close> flag and the input text; it
  confirms, declines, or is ignored.
\<close>

definition confirmation :: "bool \<times> string \<Rightarrow> bool option" where
  "confirmation k =
     (if fst k \<or> snd k = ''y'' \<or> snd k = ''Y'' \<or> snd k = [] then Some True
      else if snd k = ''n'' \<or> snd k = ''N'' then Some False
      else None)"

datatype screen =
    UsageError
  | ErrorScreen string
  | Crashed exn
  | ResultsScreen "(string \<times> UpdateResult) list"
  | DiffScreen string "DiffRecord list"
  | BreakdownScreen breakdown
  | ConfirmationScreen string
  | Blank

text \<open>
  \<open>ComponentUpdateWithConfirmation\<close>: the first key press that confirms or declines
  settles the current component; the prompt is shown again only while
  \<open>awaitingConfirmation\<close> holds, which the handler leaves false.
\<close>

definition confirm_first ::
  "'w platform \<Rightarrow> bool \<Rightarrow> string list \<Rightarrow> (bool \<times> string) list \<Rightarrow> 'w state \<Rightarrow> screen \<times> 'w state" where
  "confirm_first P force components keys s =
     (case components of
        [] \<Rightarrow> (ResultsScreen [], emit AppExit s)
      | component # rest \<Rightarrow>
          (case List.map_filter confirmation keys of
             [] \<Rightarrow> (ConfirmationScreen component, s)
           | confirmed # later \<Rightarrow>
               (case (if confirmed then updateComponent P component force s
                      else (Inr skipped, s)) of
                  (Inl error, s') \<Rightarrow> (Crashed error, s')
                | (Inr result, s') \<Rightarrow>
                    if rest = [] then (ResultsScreen [(component, result)], emit AppExit s')
                    else (Blank, s'))))"

text \<open>What \<open>App\<close> renders once \<open>loadData\<close> has run.\<close>

definition render_app ::
  "'w platform \<Rightarrow> args \<Rightarrow> (bool \<times> string) list \<Rightarrow> app \<Rightarrow> 'w state \<Rightarrow> screen \<times> 'w state" where
  "render_app P a keys ap s =
     (case a_error ap of
        Some msg \<Rightarrow> (ErrorScreen msg, emit AppExit s)
      | None \<Rightarrow>
          (case a_mode ap of
             installing \<Rightarrow>
               (case install_each P (a_missingComponents ap) [] s of
                  (Inl error, s') \<Rightarrow> (Crashed error, s')
                | (Inr rs, s') \<Rightarrow> (ResultsScreen rs, emit AppExit s'))
           | confirming \<Rightarrow>
               confirm_first P (isForce a)
                 (if truthy (componentArg a) then [or_empty (componentArg a)]
                  else a_missingComponents ap) keys s
           | results \<Rightarrow> (ResultsScreen (a_updateResults ap), emit AppExit s)
           | diff_mode \<Rightarrow>
               (DiffScreen (or_empty (componentArg a)) (a_diffResults ap), emit AppExit s)
           | view_mode \<Rightarrow>
               if hasNoArgs a then
                 (BreakdownScreen
                    (RegistryBreakdown (a_registryComponents ap) (a_existingComponents ap)
                       (a_missingComponents ap)),
                  emit AppExit s)
               else (Blank, s)))"

text \<open>
  The whole run: the argument checks at the end of the script, which leave with status 1
  before anything is rendered, then \<open>App\<close>. \<open>keys\<close> are the user's key presses.
\<close>

definition session ::
  "'w platform \<Rightarrow> string list \<Rightarrow> (bool \<times> string) list \<Rightarrow> 'w \<Rightarrow> screen \<times> 'w state" where
  "session P argv keys w =
     (let a = parse_args argv in
      if isForce a \<and> \<not> truthy (componentArg a) \<and> \<not> isAddAll a then
        (UsageError,
         emit_all
           [ConsoleLog ''Error: --force flag requires a component name'',
            ConsoleLog ''Usage: bun run shadcn:ui:force <component-name>'',
            ConsoleLog ''Example: bun run shadcn:ui:force button'',
            ConsoleLog ''Or use: bun scripts/shadcn-ui.tsx --add-all --force'',
            ProcessExit 1] (w, []))
      else if isDiff a \<and> \<not> truthy (componentArg a) then
        (UsageError,
         emit_all
           [ConsoleLog ''Error: --diff flag requires a component name'',
            ConsoleLog ''Usage: bun run shadcn:ui:diff <component-name>'',
            ConsoleLog ''Example: bun run shadcn:ui:diff button'',
            ProcessExit 1] (w, []))
      else
        (case loadData P a initial_app (w, []) of
           (ap, s) \<Rightarrow> render_app P a keys ap s))"

text \<open>The installer commands a trace holds, in order.\<close>

fun spawned :: "effect list \<Rightarrow> string list" where
  "spawned [] = []"
| "spawned (Spawn command # es) = command # spawned es"
| "spawned (e # es) = spawned es"

subsection \<open>Installers used as concrete instances\<close>

text \<open>
  A platform whose installer prints a fixed text, one whose installer fails with a fixed
  message, and an empty file system and unreachable registry around both.
\<close>

definition no_platform :: "unit platform" where
  "no_platform =
     \<lparr> execSync = (\<lambda>command w. (Inl (Error ''spawn failed''), w)),
       readdirSync = (\<lambda>dirPath w. Inl (Error ''ENOENT'')),
       statSync = (\<lambda>filePath w. Inl (Error ''ENOENT'')),
       readFileSync = (\<lambda>filePath w. Inl (Error ''ENOENT'')),
       fetch_registry = (\<lambda>w. Inl (Error ''fetch failed'')),
       fetch_details = (\<lambda>componentName w. Inl (Error ''fetch failed'')) \<rparr>"

definition installer_printing :: "string \<Rightarrow> unit platform" where
  "installer_printing output = no_platform \<lparr> execSync := (\<lambda>command w. (Inr output, w)) \<rparr>"

definition installer_failing :: "string \<Rightarrow> unit platform" where
  "installer_failing msg = no_platform \<lparr> execSync := (\<lambda>command w. (Inl (Error msg), w)) \<rparr>"

definition skipped_two_of_two :: string where
  "skipped_two_of_two =
     ''Skipped 2 files: (files might be identical, use --overwrite to overwrite)\<newline>'' @
     ''  - src/components/a.tsx\<newline>  - src/components/b.tsx''"

definition skipped_two_of_three :: string where
  "skipped_two_of_three =
     ''Skipped 3 files: (files might be identical, use --overwrite to overwrite)\<newline>'' @
     ''  - src/components/a.tsx\<newline>  - src/components/b.tsx''"

definition example_platform :: "unit platform" where
  "example_platform =
     (installer_printing ''Skipped 1 files: (files might be identical)'')
       \<lparr> readdirSync :=
           (\<lambda>dirPath w. if dirPath = ''./src/components''
                         then Inr [''button.tsx'', ''button.json'']
                         else Inl (Error ''ENOENT'')),
         statSync :=
           (\<lambda>filePath w. if filePath = ''src/components/button.tsx''
                               \<or> filePath = ''src/components/button.json''
                          then Inr True else Inl (Error ''ENOENT'')),
         fetch_registry :=
           (\<lambda>w. Inr \<lparr> ok = True, status = 200, statusText = ''OK'',
                        json_items = Inr (Some [''button'', ''card'', ''use-sparkle-icon'']) \<rparr>) \<rparr>"

section \<open>Properties\<close>

subsection \<open>Installer Driver\<close>

lemma spawn_trace:
  "snd (snd (spawn P command s)) = snd s @ [Spawn command]"
  by (simp add: spawn_def split: prod.splits)

lemma spawned_append: "spawned (xs @ ys) = spawned xs @ spawned ys"
  by (induction xs rule: spawned.induct) simp_all

lemma update_command_same:
  "update_command componentName forceOverwrite = update_command componentName True"
  by (simp add: update_command_def overwriteFlag_def)

lemma updateComponent_run:
  "updateComponent P componentName forceOverwrite s
     = (case execSync P (update_command componentName True) (fst s) of
          (Inl error, w') \<Rightarrow>
            (Inr failed,
             (w', snd s @ [Spawn (update_command componentName True),
                           ConsoleError (''Failed to update component \"'' @ componentName @ ''\":'')
                             (message error)]))
        | (Inr out, w') \<Rightarrow>
            (Inr (if includes_str out ''Skipped'' \<and> includes_str out ''files might be identical''
                  then skipped else updated),
             (w', snd s @ [Spawn (update_command componentName True)])))"
  unfolding updateComponent_def update_command_same [of componentName forceOverwrite]
  by (simp add: try_catch_def spawn_def emit_def split: prod.splits sum.splits)

text \<open>
  C2. For both values of the force argument, \<open>install(name, force)\<close> invokes the external
  installer with the overwrite directive: the command string that the Installer Driver
  builds is the installer's \<open>add\<close> command for the component followed by \<open>--overwrite\<close>,
  whatever \<open>force\<close> is; the driver runs exactly this command through \<open>execSync\<close>, once
  and nothing else, and the whole outcome of the call (result, world, trace) is the same
  for \<open>force\<close> true and false.
\<close>

theorem updateComponent_always_overwrites:
  "update_command componentName True = update_command componentName False
   \<and> endsWith (update_command componentName forceOverwrite) ''--overwrite''
   \<and> (\<exists>e. snd (snd (updateComponent P componentName forceOverwrite s))
          = snd s @ Spawn (update_command componentName True) # e)
   \<and> update_command componentName forceOverwrite
       = ''bun x --bun shadcn@latest add \"https://redpanda-ui-registry.netlify.app/r/''
           @ componentName @ ''\" --overwrite''
   \<and> updateComponent P componentName True s = updateComponent P componentName False s
   \<and> fst (snd (updateComponent P componentName forceOverwrite s))
       = snd (execSync P (update_command componentName True) (fst s))
   \<and> spawned (snd (snd (updateComponent P componentName forceOverwrite s)))
       = spawned (snd s) @ [update_command componentName True]
   \<and> updateComponent P componentName forceOverwrite s
       = (case execSync P (update_command componentName True) (fst s) of
            (Inl error, w') \<Rightarrow>
              (Inr failed,
               (w', snd s @ [Spawn (update_command componentName True),
                             ConsoleError (''Failed to update component \"'' @ componentName @ ''\":'')
                               (message error)]))
          | (Inr out, w') \<Rightarrow>
              (Inr (if includes_str out ''Skipped'' \<and> includes_str out ''files might be identical''
                    then skipped else updated),
               (w', snd s @ [Spawn (update_command componentName True)])))"
proof -
  note same = update_command_same
  have sw: "startsWith (xs @ ys) xs" for xs ys :: string
    by (induction xs) simp_all
  have 1: "update_command componentName True = update_command componentName False"
    using same [of componentName False] by simp
  have 2: "endsWith (update_command componentName forceOverwrite) ''--overwrite''"
    unfolding endsWith_def update_command_def overwriteFlag_def
    using sw [of "rev ''--overwrite''"] by (simp del: startsWith.simps)
  have 3: "\<exists>e. snd (snd (updateComponent P componentName forceOverwrite s))
          = snd s @ Spawn (update_command componentName True) # e"
    unfolding updateComponent_run by (simp split: prod.splits sum.splits)
  have 4: "update_command componentName forceOverwrite
       = ''bun x --bun shadcn@latest add \"https://redpanda-ui-registry.netlify.app/r/''
           @ componentName @ ''\" --overwrite''"
    by (simp add: update_command_def overwriteFlag_def REGISTRY_URL_def)
  have 5: "updateComponent P componentName True s = updateComponent P componentName False s"
    unfolding updateComponent_run ..
  have 6: "fst (snd (updateComponent P componentName forceOverwrite s))
       = snd (execSync P (update_command componentName True) (fst s))"
    unfolding updateComponent_run by (simp split: prod.splits sum.splits)
  have 7: "spawned (snd (snd (updateComponent P componentName forceOverwrite s)))
       = spawned (snd s) @ [update_command componentName True]"
    unfolding updateComponent_run by (simp add: spawned_append split: prod.splits sum.splits)
  note 8 = updateComponent_run [of P componentName forceOverwrite s]
  from 1 2 3 4 5 6 7 8 show ?thesis by blast
qed

subsection \<open>Name Reconciler\<close>

text \<open>
  C4. For every registry name list R and local name list L, the partition places every
  name of R in exactly one of \<open>exact\<close> and \<open>mismatched\<close> (occurrence by occurrence);
  \<open>exact\<close> holds the names of R that are members of L and \<open>mismatched\<close> the remaining
  ones; both lists keep the relative order of R.
\<close>

theorem partition_exact_mismatched:
  "mset (exactMatches R L) + mset (potentialMismatches R L) = mset R
   \<and> set (exactMatches R L) \<inter> set (potentialMismatches R L) = {}
   \<and> set (exactMatches R L) = set R \<inter> set L
   \<and> set (potentialMismatches R L) = set R - set L
   \<and> subseq (exactMatches R L) R
   \<and> subseq (potentialMismatches R L) R
   \<and> exactMatches R L = filter (\<lambda>n. n \<in> set L) R
   \<and> potentialMismatches R L = filter (\<lambda>n. n \<notin> set L) R"
  unfolding exactMatches_def potentialMismatches_def
  by (auto simp: subseq_filter_left)

subsection \<open>Existence Verifier\<close>

lemma startsWith_append:
  "startsWith s (p @ q) \<Longrightarrow> startsWith s p"
  by (induction s p rule: startsWith.induct) simp_all

lemma includes_str_append:
  "includes_str s (p @ q) \<Longrightarrow> includes_str s p"
  by (induction s) (auto dest: startsWith_append)

lemma output_says_missing_iff:
  "output_says_missing out
     = (\<not> (includes_str out ''Skipped'' \<and> includes_str out ''files might be identical''))"
  by (auto simp: output_says_missing_def Let_def split: option.splits)

lemma verifyComponentMissing_success:
  assumes "fst (execSync P (verify_command componentName) (fst s)) = Inr out"
  shows "fst (verifyComponentMissing P componentName s) = Inr (output_says_missing out)"
  using assms
  by (auto simp: verifyComponentMissing_def try_catch_def spawn_def
           split: prod.splits sum.splits)

text \<open>
  C1, as the code has it. When the installer subprocess completes without error,
  \<open>isMissing\<close> returns false exactly when the captured output contains both
  \<open>Skipped\<close> and \<open>files might be identical\<close>, whether or not a skipped-file count is
  declared and whatever the declared and extracted counts are; in every other successful
  case it returns true.
\<close>

theorem verifyComponentMissing_rule:
  assumes "fst (execSync P (verify_command componentName) (fst s)) = Inr out"
  shows "fst (verifyComponentMissing P componentName s)
           = Inr (\<not> (includes_str out ''Skipped''
                     \<and> includes_str out ''files might be identical''))"
  using verifyComponentMissing_success [OF assms] output_says_missing_iff [of out]
  by simp

theorem verifyComponentMissing_rule_witness:
  "fst (execSync (installer_printing ''Skipped 1 files: (files might be identical)'')
          (verify_command ''card'') (fst ((), [])))
     = Inr ''Skipped 1 files: (files might be identical)''
   \<and> fst (verifyComponentMissing (installer_printing ''Skipped 1 files: (files might be identical)'')
            ''card'' ((), [])) = Inr False"
proof -
  have h: "fst (execSync (installer_printing ''Skipped 1 files: (files might be identical)'')
                  (verify_command ''card'') (fst ((), [])))
             = Inr ''Skipped 1 files: (files might be identical)''"
    by (simp add: installer_printing_def no_platform_def)
  show ?thesis
    using h verifyComponentMissing_rule [OF h] by simp
qed

text \<open>
  C1 as stated fails: an output that mentions skipped-as-identical files and declares
  zero skipped files, with zero extracted paths, falls under neither of the claim's two
  "present" cases (the count is not greater than zero, and the counts agree), so the claim
  has \<open>isMissing\<close> return true there; the code returns false.
\<close>

theorem verifyComponentMissing_zero_count_counterexample:
  "includes_str ''Skipped 0 files: (files might be identical)'' ''Skipped''
   \<and> includes_str ''Skipped 0 files: (files might be identical)'' ''files might be identical''
   \<and> map_option parseInt (skippedFilesMatch ''Skipped 0 files: (files might be identical)'') = Some 0
   \<and> length (filePaths ''Skipped 0 files: (files might be identical)'') = 0
   \<and> verifyComponentMissing (installer_printing ''Skipped 0 files: (files might be identical)'')
        ''card'' ((), [])
       = (Inr False, ((), [Spawn (verify_command ''card'')]))"
  by (simp add: verifyComponentMissing_def try_catch_def spawn_def installer_printing_def
        no_platform_def output_says_missing_def skippedFiles_at_def is_digit_def parseInt_def
        filePaths_def filePath_at_def is_space_def is_line_terminator_def)

text \<open>
  C5, as the code has it. If the captured output mentions files that might be identical
  and contains \<open>Skipped 2 files:\<close> with exactly two matching path lines, \<open>isMissing\<close>
  returns false; if it declares three skipped files and lists only two matching path
  lines, \<open>isMissing\<close> returns false as well.
\<close>

theorem verifyComponentMissing_two_listed:
  assumes "fst (execSync P (verify_command componentName) (fst s)) = Inr out"
    and "includes_str out ''files might be identical''"
    and "length (filePaths out) = 2"
    and "includes_str out ''Skipped 2 files:'' \<or> includes_str out ''Skipped 3 files:''"
  shows "fst (verifyComponentMissing P componentName s) = Inr False"
proof -
  have "includes_str out ''Skipped''"
    using assms(4) includes_str_append [of out "''Skipped''" "'' 2 files:''"]
      includes_str_append [of out "''Skipped''" "'' 3 files:''"]
    by auto
  then show ?thesis
    using verifyComponentMissing_success [OF assms(1)] output_says_missing_iff [of out]
      assms(2)
    by simp
qed

lemma filePaths_two_of_two:
  "filePaths skipped_two_of_two = [''src/components/a.tsx'', ''src/components/b.tsx'']"
  by code_simp

lemma filePaths_two_of_three:
  "filePaths skipped_two_of_three = [''src/components/a.tsx'', ''src/components/b.tsx'']"
  by code_simp

lemma says_missing_two_of_three:
  "includes_str skipped_two_of_three ''Skipped 3 files:''
   \<and> includes_str skipped_two_of_three ''files might be identical''
   \<and> skippedFilesMatch skipped_two_of_three = Some ''3''
   \<and> output_says_missing skipped_two_of_three = False"
  by (simp add: skipped_two_of_three_def output_says_missing_def skippedFiles_at_def
        is_digit_def)

lemma says_missing_two_of_two:
  "includes_str skipped_two_of_two ''Skipped 2 files:''
   \<and> includes_str skipped_two_of_two ''files might be identical''"
  by (simp add: skipped_two_of_two_def)

theorem verifyComponentMissing_two_listed_witness:
  "fst (verifyComponentMissing (installer_printing skipped_two_of_two) ''card'' ((), []))
     = Inr False
   \<and> fst (verifyComponentMissing (installer_printing skipped_two_of_three) ''card'' ((), []))
     = Inr False
   \<and> length (filePaths skipped_two_of_two) = 2
   \<and> length (filePaths skipped_two_of_three) = 2
   \<and> includes_str skipped_two_of_two ''Skipped 2 files:''
   \<and> includes_str skipped_two_of_three ''Skipped 3 files:''"
proof -
  have e: "fst (execSync (installer_printing t) (verify_command ''card'') (fst ((), []))) = Inr t"
    for t
    by (simp add: installer_printing_def no_platform_def)
  have a: "fst (verifyComponentMissing (installer_printing skipped_two_of_two) ''card'' ((), []))
             = Inr False"
    using verifyComponentMissing_two_listed [OF e [of skipped_two_of_two]]
      says_missing_two_of_two filePaths_two_of_two
    by simp
  have b: "fst (verifyComponentMissing (installer_printing skipped_two_of_three) ''card'' ((), []))
             = Inr False"
    using verifyComponentMissing_two_listed [OF e [of skipped_two_of_three]]
      says_missing_two_of_three filePaths_two_of_three
    by simp
  show ?thesis
    using a b says_missing_two_of_two says_missing_two_of_three
      filePaths_two_of_two filePaths_two_of_three
    by simp
qed

text \<open>
  C5 as stated fails in its second half: the installer's text that declares three skipped
  files and lists two path lines makes \<open>isMissing\<close> return false, not true.
\<close>

theorem verifyComponentMissing_three_declared_counterexample:
  "map_option parseInt (skippedFilesMatch skipped_two_of_three) = Some 3
   \<and> length (filePaths skipped_two_of_three) = 2
   \<and> verifyComponentMissing (installer_printing skipped_two_of_three) ''card'' ((), [])
       = (Inr False, ((), [Spawn (verify_command ''card'')]))"
  using says_missing_two_of_three filePaths_two_of_three
  by (simp add: verifyComponentMissing_def try_catch_def spawn_def installer_printing_def
        no_platform_def parseInt_def)

text \<open>
  C6. Whenever the installer subprocess invoked by \<open>isMissing(name)\<close> fails (\<open>execSync\<close>
  throws, as it does on a non-zero exit status), \<open>isMissing\<close> returns true, a warning
  naming the component and carrying the error's message is written to the console, and
  the call returns normally: the error is not passed on to the caller.
\<close>

theorem verifyComponentMissing_failure:
  assumes "execSync P (verify_command componentName) (fst s) = (Inl error, w')"
  shows "verifyComponentMissing P componentName s
           = (Inr True,
              (w', snd s @ [Spawn (verify_command componentName),
                            ConsoleWarn (''Could not verify component \"'' @ componentName @ ''\":'')
                              (message error)]))"
  using assms
  by (simp add: verifyComponentMissing_def try_catch_def spawn_def emit_def)

theorem verifyComponentMissing_failure_witness:
  "execSync (installer_failing ''exit status 1'') (verify_command ''card'') (fst ((), []))
     = (Inl (Error ''exit status 1''), ())
   \<and> verifyComponentMissing (installer_failing ''exit status 1'') ''card'' ((), [])
     = (Inr True,
        ((), [Spawn (verify_command ''card''),
              ConsoleWarn ''Could not verify component \"card\":'' ''exit status 1'']))"
proof -
  have h: "execSync (installer_failing ''exit status 1'') (verify_command ''card'') (fst ((), []))
             = (Inl (Error ''exit status 1''), ())"
    by (simp add: installer_failing_def no_platform_def)
  show ?thesis
    using h verifyComponentMissing_failure [OF h] by (simp add: message_def)
qed

subsection \<open>Diff Renderer\<close>

lemma digit_char_inj: "digit_char a = digit_char b \<Longrightarrow> a mod 10 = b mod 10"
proof -
  assume h: "digit_char a = digit_char b"
  have "of_char (digit_char a) = (48 + a mod 10 :: nat)"
    unfolding digit_char_def by (simp add: of_char_of [where ?'a = nat] del: of_char_of) 
  moreover have "of_char (digit_char b) = (48 + b mod 10 :: nat)"
    unfolding digit_char_def by (simp)
  ultimately show ?thesis using h by simp
qed

lemma digit_char_is_digit: "is_digit (digit_char d)"
proof -
  have "of_char (digit_char d) = (48 + d mod 10 :: nat)"
    unfolding digit_char_def by simp
  then show ?thesis unfolding is_digit_def by simp
qed

lemma show_nat_digits: "\<forall>c \<in> set (show_nat n). is_digit c"
  by (induction n rule: show_nat.induct) (subst show_nat.simps, auto simp: digit_char_is_digit)

lemma show_nat_nonempty: "show_nat n \<noteq> []"
  by (subst show_nat.simps) simp

lemma show_nat_inj: "show_nat n = show_nat m \<Longrightarrow> n = m"
proof (induction n arbitrary: m rule: show_nat.induct)
  case (1 n)
  have small: "k < 10 \<Longrightarrow> show_nat k = [digit_char k]" for k
    by (subst show_nat.simps) simp
  have large: "\<not> k < 10 \<Longrightarrow> show_nat k = show_nat (k div 10) @ [digit_char k]" for k
    by (subst show_nat.simps) simp
  show ?case
  proof (cases "n < 10")
    case True
    note n = small [OF True]
    show ?thesis
    proof (cases "m < 10")
      case True
      have "digit_char n = digit_char m"
        using "1.prems" unfolding n small [OF True] by simp
      then have "n mod 10 = m mod 10" by (rule digit_char_inj)
      with True \<open>n < 10\<close> show ?thesis by simp
    next
      case False
      have "[digit_char n] = show_nat (m div 10) @ [digit_char m]"
        using "1.prems" unfolding n large [OF False] .
      with show_nat_nonempty [of "m div 10"] show ?thesis by simp
    qed
  next
    case False
    note n = large [OF False]
    show ?thesis
    proof (cases "m < 10")
      case True
      have "show_nat (n div 10) @ [digit_char n] = [digit_char m]"
        using "1.prems" unfolding n small [OF True] .
      with show_nat_nonempty [of "n div 10"] show ?thesis by simp
    next
      case F2: False
      have "show_nat (n div 10) @ [digit_char n] = show_nat (m div 10) @ [digit_char m]"
        using "1.prems" unfolding n large [OF F2] .
      then have a: "show_nat (n div 10) = show_nat (m div 10)"
        and b: "digit_char n = digit_char m"
        by simp_all
      from "1.IH" [OF False a] have "n div 10 = m div 10" .
      moreover from b have "n mod 10 = m mod 10" by (rule digit_char_inj)
      ultimately show ?thesis by (metis div_mult_mod_eq)
    qed
  qed
qed

lemma show_int_inj: "show_int a = show_int b \<Longrightarrow> a = b"
proof -
  assume h: "show_int a = show_int b"
  have nd: "\<not> is_digit (CHR ''-'')" by (simp add: is_digit_def)
  have hd: "is_digit (hd (show_nat n))" for n
    using show_nat_digits [of n] show_nat_nonempty [of n] by (cases "show_nat n") auto
  show ?thesis
  proof (cases "a < 0"; cases "b < 0")
    assume "a < 0" "b < 0"
    with h have "nat (- a) = nat (- b)" by (simp add: show_int_def show_nat_inj)
    with \<open>a < 0\<close> \<open>b < 0\<close> show ?thesis by simp
  next
    assume "a < 0" "\<not> b < 0"
    with h have "CHR ''-'' # show_nat (nat (- a)) = show_nat (nat b)" by (simp add: show_int_def)
    then have "hd (show_nat (nat b)) = CHR ''-''" by (metis list.sel(1))
    with hd [of "nat b"] nd show ?thesis by simp
  next
    assume "\<not> a < 0" "b < 0"
    with h have "CHR ''-'' # show_nat (nat (- b)) = show_nat (nat a)" by (simp add: show_int_def)
    then have "hd (show_nat (nat a)) = CHR ''-''" by (metis list.sel(1))
    with hd [of "nat a"] nd show ?thesis by simp
  next
    assume "\<not> a < 0" "\<not> b < 0"
    with h have "nat a = nat b" by (simp add: show_int_def show_nat_inj)
    with \<open>\<not> a < 0\<close> \<open>\<not> b < 0\<close> show ?thesis by simp
  qed
qed

lemma split_at_unique:
  "x \<notin> set xs \<Longrightarrow> x \<notin> set ys \<Longrightarrow> xs @ x # r = ys @ x # r' \<Longrightarrow> xs = ys \<and> r = r'"
proof (induction xs arbitrary: ys)
  case Nil
  then show ?case by (cases ys) auto
next
  case (Cons a xs)
  then show ?case by (cases ys) auto
qed

lemma show_int_chars: "c \<in> set (show_int a) \<Longrightarrow> c = CHR ''-'' \<or> is_digit c"
  using show_nat_digits by (auto simp: show_int_def split: if_splits)

lemma hunk_header_inj:
  assumes "hunk_header a c b d = hunk_header a' c' b' d'"
  shows "a = a' \<and> b = b'"
proof -
  have comma: "CHR '','' \<notin> set (show_int x)" for x
    using show_int_chars [of "CHR '',''" x] by (auto simp: is_digit_def)
  have space: "CHR '' '' \<notin> set (show_nat x)" for x
    using show_nat_digits [of x] by (auto simp: is_digit_def)
  from assms have 1: "show_int a @ CHR '','' # (show_nat c @ '' +'' @ show_int b @ '','' @ show_nat d @ '' @@'')
      = show_int a' @ CHR '','' # (show_nat c' @ '' +'' @ show_int b' @ '','' @ show_nat d' @ '' @@'')"
    by (simp add: hunk_header_def)
  from split_at_unique [OF comma comma 1]
  have a: "show_int a = show_int a'"
    and 2: "show_nat c @ CHR '' '' # (CHR ''+'' # show_int b @ '','' @ show_nat d @ '' @@'')
      = show_nat c' @ CHR '' '' # (CHR ''+'' # show_int b' @ '','' @ show_nat d' @ '' @@'')"
    by simp_all
  from split_at_unique [OF space space 2]
  have 3: "show_int b @ CHR '','' # (show_nat d @ '' @@'') = show_int b' @ CHR '','' # (show_nat d' @ '' @@'')"
    by simp
  from split_at_unique [OF comma comma 3] have "show_int b = show_int b'" by simp
  with a show ?thesis by (simp add: show_int_inj)
qed

lemma hunk_header_first: "hunk_header a c b d = CHR ''@'' # tl (hunk_header a c b d)"
  by (simp add: hunk_header_def)

lemma not_header:
  "l = x # t \<Longrightarrow> x \<noteq> CHR ''@'' \<Longrightarrow> l \<noteq> hunk_header a c b d"
  by (metis hunk_header_first list.inject)

lemma push_hunk_headers:
  assumes "hunkLocalStart st = hunkRegistryStart st"
    and "0 \<le> hunkLocalStart st"
    and "\<forall>l \<in> set (diffLines st). \<forall>a c b d. l = hunk_header a c b d \<longrightarrow> a = b \<and> 1 \<le> a"
    and "\<forall>l \<in> set (hunkLines st). \<forall>a c b d. l \<noteq> hunk_header a c b d"
  shows "\<forall>l \<in> set (diffLines (push_hunk st)).
           \<forall>a c b d. l = hunk_header a c b d \<longrightarrow> a = b \<and> 1 \<le> a"
proof (intro ballI allI impI)
  fix l a c b d
  assume l: "l \<in> set (diffLines (push_hunk st))" and h: "l = hunk_header a c b d"
  from l consider "l \<in> set (diffLines st)"
    | c' d' where "l = hunk_header (hunkLocalStart st + 1) c' (hunkRegistryStart st + 1) d'"
    | "l \<in> set (hunkLines st)"
    by (auto simp: push_hunk_def Let_def)
  then show "a = b \<and> 1 \<le> a"
  proof cases
    case 1
    with assms(3) h show ?thesis by blast
  next
    case 2
    with h hunk_header_inj [of a c b d "hunkLocalStart st + 1" c' "hunkRegistryStart st + 1" d']
      assms(1,2)
    show ?thesis by simp
  next
    case 3
    with assms(4) h show ?thesis by blast
  qed
qed

lemma push_hunk_fields:
  "hunkLocalStart (push_hunk st) = hunkLocalStart st"
  "hunkRegistryStart (push_hunk st) = hunkRegistryStart st"
  "hunkLines (push_hunk st) = hunkLines st"
  "hunkStart (push_hunk st) = hunkStart st"
  by (simp_all add: push_hunk_def Let_def)

lemma diff_step_inv:
  assumes "hunkLocalStart st = hunkRegistryStart st"
    and "hunkStart st \<noteq> - 1 \<longrightarrow> 0 \<le> hunkLocalStart st"
    and "\<forall>l \<in> set (diffLines st). \<forall>a c b d. l = hunk_header a c b d \<longrightarrow> a = b \<and> 1 \<le> a"
    and "\<forall>l \<in> set (hunkLines st). \<forall>a c b d. l \<noteq> hunk_header a c b d"
  shows "hunkLocalStart (diff_step L R i st) = hunkRegistryStart (diff_step L R i st)
    \<and> (hunkStart (diff_step L R i st) \<noteq> - 1 \<longrightarrow> 0 \<le> hunkLocalStart (diff_step L R i st))
    \<and> (\<forall>l \<in> set (diffLines (diff_step L R i st)).
          \<forall>a c b d. l = hunk_header a c b d \<longrightarrow> a = b \<and> 1 \<le> a)
    \<and> (\<forall>l \<in> set (hunkLines (diff_step L R i st)). \<forall>a c b d. l \<noteq> hunk_header a c b d)"
proof (cases "or_empty (at_index L i) \<noteq> or_empty (at_index R i)")
  case True
  have m: "(CHR ''-'' # t) \<noteq> hunk_header a c b d" for t a c b d
    by (rule not_header [of _ "CHR ''-''" t]) simp_all
  have p: "(CHR ''+'' # t) \<noteq> hunk_header a c b d" for t a c b d
    by (rule not_header [of _ "CHR ''+''" t]) simp_all
  from True assms m p show ?thesis
    by (auto simp: diff_step_def Let_def)
next
  case False
  show ?thesis
  proof (cases "hunkStart st \<noteq> - 1")
    case True
    with False have e: "diff_step L R i st = (push_hunk st) \<lparr> hunkStart := - 1, hunkLines := [] \<rparr>"
      by (simp add: diff_step_def Let_def)
    from True assms(2) have nn: "0 \<le> hunkLocalStart st" by simp
    show ?thesis
      unfolding e using push_hunk_headers [OF assms(1) nn assms(3,4)] assms(1)
      by (simp add: push_hunk_fields)
  next
    case F: False
    with False have "diff_step L R i st = st" by (simp add: diff_step_def Let_def)
    with assms show ?thesis by simp
  qed
qed

lemma diff_loop_inv:
  assumes "hunkLocalStart st = hunkRegistryStart st"
    and "hunkStart st \<noteq> - 1 \<longrightarrow> 0 \<le> hunkLocalStart st"
    and "\<forall>l \<in> set (diffLines st). \<forall>a c b d. l = hunk_header a c b d \<longrightarrow> a = b \<and> 1 \<le> a"
    and "\<forall>l \<in> set (hunkLines st). \<forall>a c b d. l \<noteq> hunk_header a c b d"
  shows "hunkLocalStart (fold (diff_step L R) [0..<n] st)
           = hunkRegistryStart (fold (diff_step L R) [0..<n] st)
    \<and> (hunkStart (fold (diff_step L R) [0..<n] st) \<noteq> - 1
          \<longrightarrow> 0 \<le> hunkLocalStart (fold (diff_step L R) [0..<n] st))
    \<and> (\<forall>l \<in> set (diffLines (fold (diff_step L R) [0..<n] st)).
          \<forall>a c b d. l = hunk_header a c b d \<longrightarrow> a = b \<and> 1 \<le> a)
    \<and> (\<forall>l \<in> set (hunkLines (fold (diff_step L R) [0..<n] st)).
          \<forall>a c b d. l \<noteq> hunk_header a c b d)"
proof (induction n)
  case 0
  with assms show ?case by simp
next
  case (Suc n)
  let ?s = "fold (diff_step L R) [0..<n] st"
  from Suc have a: "hunkLocalStart ?s = hunkRegistryStart ?s"
    and b: "hunkStart ?s \<noteq> - 1 \<longrightarrow> 0 \<le> hunkLocalStart ?s"
    and c: "\<forall>l \<in> set (diffLines ?s). \<forall>a c b d. l = hunk_header a c b d \<longrightarrow> a = b \<and> 1 \<le> a"
    and d: "\<forall>l \<in> set (hunkLines ?s). \<forall>a c b d. l \<noteq> hunk_header a c b d"
    by blast+
  have e: "fold (diff_step L R) [0..<Suc n] st = diff_step L R n ?s"
    by simp
  show ?case
    unfolding e by (rule diff_step_inv [OF a b c d])
qed

text \<open>
  C10. For every pair of input texts and every label, in every hunk header
  \<open>@@ -a,c +b,d @@\<close> among the lines emitted by the Diff Renderer, the local starting
  line number \<open>a\<close> equals the registry starting line number \<open>b\<close>, and it is a 1-based
  line number.
\<close>

theorem generateDiff_header_starts_equal:
  assumes "hunk_header a c b d \<in> set (generateDiff_lines localContent registryContent fileName)"
  shows "a = b \<and> 1 \<le> a"
proof -
  define L where "L = split localContent (CHR 0x0A)"
  define R where "R = split registryContent (CHR 0x0A)"
  define st0 where "st0 = \<lparr> hunkStart = - 1, hunkLocalStart = - 1, hunkRegistryStart = - 1,
                  hunkLines = [],
                  diffLines = [''--- a/'' @ fileName, ''+++ b/'' @ fileName] \<rparr>"
  define st where "st = fold (diff_step L R) [0..<max (length L) (length R)] st0"
  have m: "(CHR ''-'' # t) \<noteq> hunk_header a c b d" for t a c b d
    by (rule not_header [of _ "CHR ''-''" t]) simp_all
  have p: "(CHR ''+'' # t) \<noteq> hunk_header a c b d" for t a c b d
    by (rule not_header [of _ "CHR ''+''" t]) simp_all
  have i0: "hunkLocalStart st0 = hunkRegistryStart st0"
    "hunkStart st0 \<noteq> - 1 \<longrightarrow> 0 \<le> hunkLocalStart st0"
    "\<forall>l \<in> set (diffLines st0). \<forall>a c b d. l = hunk_header a c b d \<longrightarrow> a = b \<and> 1 \<le> a"
    "\<forall>l \<in> set (hunkLines st0). \<forall>a c b d. l \<noteq> hunk_header a c b d"
    using m p by (auto simp: st0_def)
  from diff_loop_inv [OF i0, of L R "max (length L) (length R)"]
  have inv: "hunkLocalStart st = hunkRegistryStart st"
    "hunkStart st \<noteq> - 1 \<longrightarrow> 0 \<le> hunkLocalStart st"
    "\<forall>l \<in> set (diffLines st). \<forall>a c b d. l = hunk_header a c b d \<longrightarrow> a = b \<and> 1 \<le> a"
    "\<forall>l \<in> set (hunkLines st). \<forall>a c b d. l \<noteq> hunk_header a c b d"
    unfolding st_def by blast+
  have out: "generateDiff_lines localContent registryContent fileName
      = diffLines (if hunkStart st \<noteq> - 1 then push_hunk st else st)"
    by (simp add: generateDiff_lines_def Let_def L_def R_def st0_def st_def)
  show ?thesis
  proof (cases "hunkStart st \<noteq> - 1")
    case True
    with inv(2) have nn: "0 \<le> hunkLocalStart st" by simp
    from True assms out push_hunk_headers [OF inv(1) nn inv(3,4)] show ?thesis by metis
  next
    case False
    with assms out inv(3) show ?thesis by metis
  qed
qed

theorem generateDiff_header_starts_equal_witness:
  "hunk_header 2 1 2 1
     \<in> set (generateDiff_lines ''a\<newline>x\<newline>c\<newline>d'' ''a\<newline>b\<newline>c'' ''f'')
   \<and> generateDiff_lines ''a\<newline>x\<newline>c\<newline>d'' ''a\<newline>b\<newline>c'' ''f''
       = [''--- a/f'', ''+++ b/f'', ''@@ -2,1 +2,1 @@'', ''-x'', ''+b'', ''@@ -4,1 +4,0 @@'', ''-d'']
   \<and> (2::int) = 2 \<and> (1::int) \<le> 2"
proof -
  have e: "generateDiff_lines ''a\<newline>x\<newline>c\<newline>d'' ''a\<newline>b\<newline>c'' ''f''
       = [''--- a/f'', ''+++ b/f'', ''@@ -2,1 +2,1 @@'', ''-x'', ''+b'', ''@@ -4,1 +4,0 @@'', ''-d'']"
    by code_simp
  have g: "hunk_header 2 1 2 1 = ''@@ -2,1 +2,1 @@''"
    by code_simp
  have h: "hunk_header 2 1 2 1
     \<in> set (generateDiff_lines ''a\<newline>x\<newline>c\<newline>d'' ''a\<newline>b\<newline>c'' ''f'')"
    unfolding e g by simp
  show ?thesis
    using h e generateDiff_header_starts_equal [OF h] by simp
qed

text \<open>
  C3 fails on the code. A blank line of one text that lies past the end of the other
  text compares equal to the missing line (\<open>undefined || ''\<close> is the empty string), so it
  is put into no hunk: the diff of \<open>a\<close> against \<open>a\<close> followed by a line break has no hunk at
  all, and is the diff of \<open>a\<close> against itself. Applying its hunks to the local text leaves
  it unchanged, which is not the registry text; no way of applying the output can
  reconstruct the registry text in both cases. Likewise a line added to a text that ends
  with a line break loses the final line break.
\<close>

theorem generateDiff_blank_line_past_end:
  "generateDiff ''a'' ''a\<newline>'' ''f'' = ''--- a/f\<newline>+++ b/f''
   \<and> generateDiff ''a'' ''a'' ''f'' = ''--- a/f\<newline>+++ b/f''
   \<and> join (apply_diff (split ''a'' (CHR 0x0A)) (generateDiff_lines ''a'' ''a\<newline>'' ''f''))
         [CHR 0x0A] = ''a''
   \<and> generateDiff ''a\<newline>'' ''a\<newline>b\<newline>'' ''f''
       = ''--- a/f\<newline>+++ b/f\<newline>@@ -2,1 +2,1 @@\<newline>-\<newline>+b''
   \<and> join (apply_diff (split ''a\<newline>'' (CHR 0x0A))
               (generateDiff_lines ''a\<newline>'' ''a\<newline>b\<newline>'' ''f'')) [CHR 0x0A]
       = ''a\<newline>b''
   \<and> \<not> (\<exists>patch. \<forall>localText registryText.
           patch localText (generateDiff localText registryText ''f'') = registryText)"
proof -
  have 1: "generateDiff ''a'' ''a\<newline>'' ''f'' = ''--- a/f\<newline>+++ b/f''"
    by code_simp
  have 2: "generateDiff ''a'' ''a'' ''f'' = ''--- a/f\<newline>+++ b/f''"
    by code_simp
  have 3: "generateDiff ''a\<newline>'' ''a\<newline>b\<newline>'' ''f''
       = ''--- a/f\<newline>+++ b/f\<newline>@@ -2,1 +2,1 @@\<newline>-\<newline>+b''"
    by code_simp
  have 4: "\<not> (\<exists>patch. \<forall>localText registryText.
           patch localText (generateDiff localText registryText ''f'') = registryText)"
  proof
    assume "\<exists>patch. \<forall>localText registryText.
           patch localText (generateDiff localText registryText ''f'') = registryText"
    then obtain patch :: "string \<Rightarrow> string \<Rightarrow> string"
      where a: "\<And>localText registryText.
           patch localText (generateDiff localText registryText ''f'') = registryText"
      by blast
    from a [of "''a''" "''a\<newline>''"] a [of "''a''" "''a''"]
    have "''a\<newline>'' = ''a''" unfolding 1 2 by simp
    then show False by simp
  qed
  have 5: "join (apply_diff (split ''a'' (CHR 0x0A)) (generateDiff_lines ''a'' ''a\<newline>'' ''f''))
         [CHR 0x0A] = ''a''"
    by code_simp
  have 6: "join (apply_diff (split ''a\<newline>'' (CHR 0x0A))
               (generateDiff_lines ''a\<newline>'' ''a\<newline>b\<newline>'' ''f'')) [CHR 0x0A]
       = ''a\<newline>b''"
    by code_simp
  from 1 2 3 4 5 6 show ?thesis by blast
qed

lemma parseInt_snoc: "parseInt (ds @ [c]) = 10 * parseInt ds + (of_char c - 48)"
  by (simp add: parseInt_def)

lemma digit_char_value: "(of_char (digit_char n) :: nat) - 48 = n mod 10"
  by (simp add: digit_char_def)

lemma parseInt_show_nat: "parseInt (show_nat n) = n"
proof (induction n rule: show_nat.induct)
  case (1 n)
  show ?case
  proof (cases "n < 10")
    case True
    then have "show_nat n = [digit_char n]" by (subst show_nat.simps) simp
    with True show ?thesis by (simp add: parseInt_def digit_char_value)
  next
    case False
    then have "show_nat n = show_nat (n div 10) @ [digit_char n]" by (subst show_nat.simps) simp
    with "1.IH" [OF False] show ?thesis
      by (simp add: parseInt_snoc digit_char_value)
  qed
qed


lemma header_start_hunk_header:
  "header_start (hunk_header (int s + 1) c b d) = s + 1"
proof -
  have i: "show_int (int s + 1) = show_nat (s + 1)"
    by (simp add: show_int_def nat_add_distrib)
  have "drop 4 (hunk_header (int s + 1) c b d)
          = show_nat (s + 1) @ CHR '','' # (show_nat c @ '' +'' @ show_int b @ '','' @ show_nat d @ '' @@'')"
    by (simp add: hunk_header_def i)
  moreover have "takeWhile is_digit (show_nat (s + 1) @ CHR '','' # r) = show_nat (s + 1)" for r
    using show_nat_digits [of "s + 1"]
    by (simp add: takeWhile_append2 is_digit_def)
  ultimately show ?thesis
    by (simp add: header_start_def parseInt_show_nat)
qed

lemma patch_line_header:
  "patch_line (hunk_header (int s + 1) c b d) (pos, ws) = (s, ws)"
proof -
  obtain t where t: "hunk_header (int s + 1) c b d = CHR ''@'' # t"
    by (simp add: hunk_header_def)
  have "patch_line (CHR ''@'' # t) (pos, ws) = (header_start (CHR ''@'' # t) - 1, ws)"
    by simp
  then show ?thesis
    using header_start_hunk_header [of s c b d] unfolding t by simp
qed

lemma patch_new_lines:
  assumes "i < max (length L) (length R)"
  shows "fold patch_line
           ((if at_index L i \<noteq> None then [''-'' @ or_empty (at_index L i)] else [])
            @ (if at_index R i \<noteq> None then [''+'' @ or_empty (at_index R i)] else []))
           (min i (length R), take i R @ drop i L)
         = (min (Suc i) (length R), take (Suc i) R @ drop (Suc i) L)"
proof (cases "i < length L"; cases "i < length R")
  assume l: "i < length L" and r: "i < length R"
  then show ?thesis
    by (simp add: at_index_def or_empty_def min_def take_Suc_conv_app_nth)
next
  assume l: "i < length L" and r: "\<not> i < length R"
  then show ?thesis
    by (simp add: at_index_def or_empty_def min_def)
next
  assume l: "\<not> i < length L" and r: "i < length R"
  then show ?thesis
    by (simp add: at_index_def or_empty_def min_def take_Suc_conv_app_nth)
next
  assume "\<not> i < length L" and "\<not> i < length R"
  with assms show ?thesis by simp
qed

lemma same_line_step:
  assumes "i < min (length L) (length R)" and "L ! i = R ! i"
  shows "take (Suc i) R @ drop (Suc i) L = take i R @ drop i L"
proof -
  have "drop i L = R ! i # drop (Suc i) L"
    using assms Cons_nth_drop_Suc [of i L] by simp
  with assms show ?thesis by (simp add: take_Suc_conv_app_nth)
qed


lemma patch_inv_step:
  assumes inv: "patch_inv L R i st"
    and i: "i < max (length L) (length R)"
    and tail: "\<forall>j. min (length L) (length R) \<le> j \<and> j < max (length L) (length R)
                 \<longrightarrow> or_empty (at_index L j) \<noteq> or_empty (at_index R j)"
  shows "patch_inv L R (Suc i) (diff_step L R i st)"
proof (cases "or_empty (at_index L i) \<noteq> or_empty (at_index R i)")
  case True
  let ?mk = "(if at_index L i \<noteq> None then [''-'' @ or_empty (at_index L i)] else [])
            @ (if at_index R i \<noteq> None then [''+'' @ or_empty (at_index R i)] else [])"
  let ?E = "snd (fold patch_line (drop 2 (diffLines st)) (0, L))"
  let ?st1 = "(if hunkStart st = - 1
                      then st \<lparr> hunkStart := int i, hunkLocalStart := int i,
                                hunkRegistryStart := int i \<rparr>
                      else st)"
  have step: "diff_step L R i st = ?st1 \<lparr> hunkLines := hunkLines ?st1 @ ?mk \<rparr>"
    using True by (simp add: diff_step_def Let_def)
  have open': "hunkStart (diff_step L R i st) \<noteq> - 1"
    unfolding step by simp
  have dl: "diffLines (diff_step L R i st) = diffLines st"
    unfolding step by simp
  have "\<exists>s. hunkLocalStart (diff_step L R i st) = int s
          \<and> fold patch_line (hunkLines (diff_step L R i st)) (s, ?E)
              = (min (Suc i) (length R), take (Suc i) R @ drop (Suc i) L)"
  proof (cases "hunkStart st = - 1")
    case closed: True
    with inv have h: "hunkLines st = []" and le: "i \<le> min (length L) (length R)"
      and e: "?E = take i R @ drop i L"
      by (simp_all add: patch_inv_def)
    from le have m: "min i (length R) = i" by simp
    have "hunkLocalStart (diff_step L R i st) = int i"
      unfolding step using closed by simp
    moreover have "fold patch_line (hunkLines (diff_step L R i st)) (i, ?E)
              = (min (Suc i) (length R), take (Suc i) R @ drop (Suc i) L)"
      unfolding step using closed h e patch_new_lines [OF i] m by simp
    ultimately show ?thesis by blast
  next
    case opened: False
    with inv obtain s where s: "hunkLocalStart st = int s"
      and f: "fold patch_line (hunkLines st) (s, ?E) = (min i (length R), take i R @ drop i L)"
      by (auto simp: patch_inv_def)
    have "hunkLocalStart (diff_step L R i st) = int s"
      unfolding step using opened s by simp
    moreover have "fold patch_line (hunkLines (diff_step L R i st)) (s, ?E)
              = (min (Suc i) (length R), take (Suc i) R @ drop (Suc i) L)"
      unfolding step using opened f patch_new_lines [OF i] by simp
    ultimately show ?thesis by blast
  qed
  moreover from inv have "2 \<le> length (diffLines st)" by (simp add: patch_inv_def)
  ultimately show ?thesis
    using open' dl unfolding patch_inv_def by simp
next
  case False
  with tail i have lt: "i < min (length L) (length R)"
    by (metis not_le_imp_less)
  with False have same: "L ! i = R ! i"
    by (simp add: at_index_def or_empty_def)
  note q = same_line_step [OF lt same]
  show ?thesis
  proof (cases "hunkStart st = - 1")
    case closed: True
    with False have "diff_step L R i st = st" by (simp add: diff_step_def Let_def)
    with inv closed lt q show ?thesis by (simp add: patch_inv_def)
  next
    case opened: False
    with inv obtain s where s: "hunkLocalStart st = int s"
      and f: "fold patch_line (hunkLines st)
                (s, snd (fold patch_line (drop 2 (diffLines st)) (0, L)))
              = (min i (length R), take i R @ drop i L)"
      and two: "2 \<le> length (diffLines st)"
      by (auto simp: patch_inv_def)
    from opened False
    have step: "diff_step L R i st = (push_hunk st) \<lparr> hunkStart := - 1, hunkLines := [] \<rparr>"
      by (simp add: diff_step_def Let_def)
    obtain c d where dl: "diffLines (diff_step L R i st)
        = diffLines st @ hunk_header (int s + 1) c (hunkRegistryStart st + 1) d # hunkLines st"
      unfolding step by (simp add: push_hunk_def Let_def s)
    obtain pos ws where E: "fold patch_line (drop 2 (diffLines st)) (0, L) = (pos, ws)"
      by (cases "fold patch_line (drop 2 (diffLines st)) (0, L)")
    have "fold patch_line (drop 2 (diffLines (diff_step L R i st))) (0, L)
            = fold patch_line (hunkLines st) (s, ws)"
      unfolding dl using two E by (simp add: patch_line_header)
    also have "\<dots> = (min i (length R), take i R @ drop i L)"
      using f E by simp
    finally have "snd (fold patch_line (drop 2 (diffLines (diff_step L R i st))) (0, L))
            = take (Suc i) R @ drop (Suc i) L"
      using q by simp
    moreover have "hunkStart (diff_step L R i st) = - 1" "hunkLines (diff_step L R i st) = []"
      unfolding step by simp_all
    moreover have "2 \<le> length (diffLines (diff_step L R i st))"
      unfolding dl using two by simp
    ultimately show ?thesis
      using lt by (simp add: patch_inv_def)
  qed
qed

lemma patch_inv_loop:
  assumes tail: "\<forall>j. min (length L) (length R) \<le> j \<and> j < max (length L) (length R)
                 \<longrightarrow> or_empty (at_index L j) \<noteq> or_empty (at_index R j)"
    and n: "n \<le> max (length L) (length R)"
    and init: "patch_inv L R 0 st0"
  shows "patch_inv L R n (fold (diff_step L R) [0..<n] st0)"
  using n
proof (induction n)
  case 0
  with init show ?case by simp
next
  case (Suc n)
  then have "patch_inv L R n (fold (diff_step L R) [0..<n] st0)" and "n < max (length L) (length R)"
    by simp_all
  from patch_inv_step [OF this tail] show ?case by simp
qed

lemma split_not_empty: "split s sep \<noteq> []"
  by (induction s) (auto split: list.splits)

lemma join_Cons_Cons: "join ((c # l) # ls) sep = c # join (l # ls) sep"
  by (cases ls) simp_all

lemma join_split: "join (split s sep) [sep] = s"
proof (induction s)
  case Nil
  show ?case by simp
next
  case (Cons c cs)
  obtain l ls where l: "split cs sep = l # ls"
    using split_not_empty [of cs sep] by (cases "split cs sep") auto
  with Cons show ?case by (simp add: join_Cons_Cons)
qed

text \<open>
  Apart from that case the round trip holds: when no blank line of one text lies past
  the end of the other text (every line past the end of the shorter text is non-empty),
  applying the emitted lines to the local text gives the registry text.
\<close>

lemma generateDiff_round_trip:
  assumes "\<forall>j. min (length (split localText (CHR 0x0A))) (length (split registryText (CHR 0x0A))) \<le> j
               \<and> j < max (length (split localText (CHR 0x0A))) (length (split registryText (CHR 0x0A)))
             \<longrightarrow> or_empty (at_index (split localText (CHR 0x0A)) j)
                   \<noteq> or_empty (at_index (split registryText (CHR 0x0A)) j)"
  shows "join (apply_diff (split localText (CHR 0x0A))
                 (generateDiff_lines localText registryText label)) [CHR 0x0A]
           = registryText"
proof -
  define L where "L = split localText (CHR 0x0A)"
  define R where "R = split registryText (CHR 0x0A)"
  define st0 where "st0 = \<lparr> hunkStart = - 1, hunkLocalStart = - 1, hunkRegistryStart = - 1,
                  hunkLines = [],
                  diffLines = [''--- a/'' @ label, ''+++ b/'' @ label] \<rparr>"
  define n where "n = max (length L) (length R)"
  define st where "st = fold (diff_step L R) [0..<n] st0"
  have init: "patch_inv L R 0 st0"
    by (simp add: patch_inv_def st0_def)
  have tail: "\<forall>j. min (length L) (length R) \<le> j \<and> j < max (length L) (length R)
                 \<longrightarrow> or_empty (at_index L j) \<noteq> or_empty (at_index R j)"
    using assms unfolding L_def R_def .
  have inv: "patch_inv L R n st"
    unfolding st_def by (rule patch_inv_loop [OF tail _ init]) (simp add: n_def)
  have out: "generateDiff_lines localText registryText label
      = diffLines (if hunkStart st \<noteq> - 1 then push_hunk st else st)"
    by (simp add: generateDiff_lines_def Let_def L_def R_def st0_def st_def n_def)
  have full: "take n R @ drop n L = R"
    by (simp add: n_def)
  have "apply_diff L (generateDiff_lines localText registryText label) = R"
  proof (cases "hunkStart st = - 1")
    case True
    with inv full show ?thesis
      unfolding out apply_diff_def by (simp add: patch_inv_def)
  next
    case False
    with inv obtain s where s: "hunkLocalStart st = int s"
      and f: "fold patch_line (hunkLines st)
                (s, snd (fold patch_line (drop 2 (diffLines st)) (0, L)))
              = (min n (length R), take n R @ drop n L)"
      and two: "2 \<le> length (diffLines st)"
      by (auto simp: patch_inv_def)
    obtain c d where dl: "diffLines (push_hunk st)
        = diffLines st @ hunk_header (int s + 1) c (hunkRegistryStart st + 1) d # hunkLines st"
      by (simp add: push_hunk_def Let_def s)
    obtain pos ws where E: "fold patch_line (drop 2 (diffLines st)) (0, L) = (pos, ws)"
      by (cases "fold patch_line (drop 2 (diffLines st)) (0, L)")
    have "fold patch_line (drop 2 (diffLines (push_hunk st))) (0, L)
            = fold patch_line (hunkLines st) (s, ws)"
      unfolding dl using two E by (simp add: patch_line_header)
    also have "\<dots> = (min n (length R), take n R @ drop n L)"
      using f E by simp
    finally show ?thesis
      unfolding out apply_diff_def using False full by simp
  qed
  then show ?thesis
    unfolding L_def R_def by (simp add: join_split)
qed

subsection \<open>Local Inventory Scanner\<close>

lemma scan_files_names:
  "\<exists>r. scan_files P w dirPath extensions files cs
     = (r, cs @ concat (map (file_names P w dirPath extensions)
                          (takeWhile (stat_ok P w dirPath) files)))"
proof (induction files arbitrary: cs)
  case Nil
  show ?case by simp
next
  case (Cons f files)
  show ?case
  proof (cases "statSync P (path_join dirPath f) w")
    case (Inl e)
    then show ?thesis by (simp add: stat_ok_def)
  next
    case (Inr isFile)
    then have ok: "stat_ok P w dirPath f" by (simp add: stat_ok_def)
    show ?thesis
    proof (cases "file_names P w dirPath extensions f")
      case Nil
      then have "scan_files P w dirPath extensions (f # files) cs
                   = scan_files P w dirPath extensions files cs"
        using Inr by (auto simp: file_names_def Let_def split: option.splits if_splits)
      with Cons.IH [of cs] Nil ok show ?thesis by simp
    next
      case (Cons n ns)
      then have "ns = [] \<and> scan_files P w dirPath extensions (f # files) cs
                   = scan_files P w dirPath extensions files (cs @ [n])"
        using Inr by (auto simp: file_names_def Let_def split: option.splits if_splits)
      with Cons.IH [of "cs @ [n]"] Cons ok show ?thesis by simp
    qed
  qed
qed

lemma scan_directories_step:
  "try_catch
     (case readdirSync P dirPath w of
        Inl error \<Rightarrow> (Inl error, cs)
      | Inr files \<Rightarrow> scan_files P w dirPath extensions files cs)
     (\<lambda>error components'. (Inr (), components'))
   = (Inr (), cs @ dir_names P w (dirPath, extensions))"
proof (cases "readdirSync P dirPath w")
  case (Inl e)
  then show ?thesis by (simp add: try_catch_def dir_names_def)
next
  case (Inr files)
  obtain r where "scan_files P w dirPath extensions files cs
     = (r, cs @ concat (map (file_names P w dirPath extensions)
                          (takeWhile (stat_ok P w dirPath) files)))"
    using scan_files_names [of P w dirPath extensions files cs] by blast
  with Inr show ?thesis
    by (cases r) (simp_all add: try_catch_def dir_names_def)
qed

lemma scan_directories_names:
  "scan_directories P w ds cs = (Inr (), cs @ concat (map (dir_names P w) ds))"
proof (induction ds arbitrary: cs)
  case Nil
  show ?case by simp
next
  case (Cons d ds)
  obtain dirPath extensions where d: "d = (dirPath, extensions)" by (cases d)
  show ?case
    unfolding d scan_directories.simps scan_directories_step
    using Cons.IH [of "cs @ dir_names P w (dirPath, extensions)"]
    by simp
qed

lemma check_globals_names:
  "check_globals P w cs = (Inr (), cs @ theme_names P w)"
  by (simp add: check_globals_def try_catch_def theme_names_def split: sum.splits)

lemma scan_from_names:
  "scan_from P w ds = Inr (concat (map (dir_names P w) ds) @ theme_names P w)"
  by (simp add: scan_from_def scan_directories_names check_globals_names)


lemma example_scan:
  "getExistingComponents example_platform () = Inr [''button'', ''button'']"
  by code_simp

text \<open>
  C8, as the code has it. The result of \<open>scan()\<close> is a list, not a set: it is the names
  contributed by the scanned directories, in order, one entry for every regular file
  with a recognized extension (other than \<open>index\<close>), followed by \<open>theme\<close> when the global
  style file is a regular file. Nothing collapses equal names.
\<close>

theorem getExistingComponents_keeps_duplicates:
  "getExistingComponents P w
     = Inr (concat (map (dir_names P w) directories) @ theme_names P w)"
  by (simp add: getExistingComponents_def scan_from_names)

text \<open>
  C8 as stated fails: with \<open>button.tsx\<close> and \<open>button.json\<close> in the components directory,
  the name \<open>button\<close> occurs twice in the result.
\<close>

theorem getExistingComponents_duplicate_counterexample:
  "getExistingComponents example_platform () = Inr [''button'', ''button'']
   \<and> \<not> distinct [''button'', ''button'']"
  using example_scan by simp

text \<open>
  C9. For every file system state, \<open>scan()\<close> returns normally; a listed directory that
  cannot be read contributes no names, and the result is the one obtained from the
  other directories alone.
\<close>

theorem getExistingComponents_absent_directory:
  assumes "directories = ds1 @ (dirPath, extensions) # ds2"
    and "readdirSync P dirPath w = Inl error"
  shows "(\<exists>names. getExistingComponents P w = Inr names)
     \<and> dir_names P w (dirPath, extensions) = []
     \<and> getExistingComponents P w = scan_from P w (ds1 @ ds2)"
proof -
  have "dir_names P w (dirPath, extensions) = []"
    using assms(2) by (simp add: dir_names_def)
  then show ?thesis
    by (simp add: getExistingComponents_def scan_from_names assms(1))
qed

theorem getExistingComponents_absent_directory_witness:
  "directories = [(''./src/components'', [''.tsx'', ''.json''])]
       @ (''./src/icons'', [''.tsx'']) # [(''./src/hooks'', [''.ts'', ''.tsx''])]
   \<and> readdirSync example_platform ''./src/icons'' () = Inl (Error ''ENOENT'')
   \<and> getExistingComponents example_platform () = Inr [''button'', ''button'']
   \<and> scan_from example_platform ()
         ([(''./src/components'', [''.tsx'', ''.json''])] @ [(''./src/hooks'', [''.ts'', ''.tsx''])])
       = Inr [''button'', ''button'']"
proof -
  have d: "directories = [(''./src/components'', [''.tsx'', ''.json''])]
       @ (''./src/icons'', [''.tsx'']) # [(''./src/hooks'', [''.ts'', ''.tsx''])]"
    by (simp add: directories_def)
  have r: "readdirSync example_platform ''./src/icons'' () = Inl (Error ''ENOENT'')"
    by (simp add: example_platform_def installer_printing_def no_platform_def)
  show ?thesis
    using d r getExistingComponents_absent_directory [OF d r] example_scan by simp
qed

subsection \<open>Session Controller\<close>

lemma spawned_emit: "spawned (snd (emit e s)) = spawned (snd s) @ spawned [e]"
  by (simp add: emit_def spawned_append)

lemma spawned_map_ConsoleLog: "spawned (map (\<lambda>x. ConsoleLog (f x)) xs) = []"
  by (induction xs) simp_all

lemma verifyComponentMissing_spawned:
  "\<exists>b s'. verifyComponentMissing P n s = (Inr b, s')
     \<and> spawned (snd s') = spawned (snd s) @ [verify_command n]"
  by (auto simp: verifyComponentMissing_def try_catch_def spawn_def emit_def spawned_append
           split: prod.splits sum.splits)

lemma verify_each_spawned:
  "\<exists>r s'. verify_each P n i cs vm ai s = (Inr r, s')
     \<and> spawned (snd s') = spawned (snd s) @ map verify_command cs"
proof (induction cs arbitrary: i vm ai s)
  case Nil
  show ?case by simp
next
  case (Cons c cs)
  let ?s1 = "emit (Progress (''Checking '' @ c @ '' ('' @ show_nat (i + 1) @ ''/'' @ show_nat n @ '')'')) s"
  obtain b s2 where v: "verifyComponentMissing P c ?s1 = (Inr b, s2)"
    and t: "spawned (snd s2) = spawned (snd ?s1) @ [verify_command c]"
    using verifyComponentMissing_spawned [of P c ?s1] by blast
  have t': "spawned (snd s2) = spawned (snd s) @ [verify_command c]"
    using t by (simp add: spawned_emit)
  show ?case
  proof (cases b)
    case True
    obtain r s' where "verify_each P n (i + 1) cs (vm @ [c]) ai s2 = (Inr r, s')"
      and "spawned (snd s') = spawned (snd s2) @ map verify_command cs"
      using Cons.IH [of "i + 1" "vm @ [c]" ai s2] by blast
    with v True t' show ?thesis by simp
  next
    case False
    obtain r s' where "verify_each P n (i + 1) cs vm (ai @ [c]) s2 = (Inr r, s')"
      and "spawned (snd s') = spawned (snd s2) @ map verify_command cs"
      using Cons.IH [of "i + 1" vm "ai @ [c]" s2] by blast
    with v False t' show ?thesis by simp
  qed
qed

lemma getVerifiedMissingComponents_spawned:
  "\<exists>vm s'. getVerifiedMissingComponents P reg ex s = (Inr vm, s')
     \<and> spawned (snd s') = spawned (snd s) @ map verify_command (potentialMismatches reg ex)"
proof (cases "potentialMismatches reg ex = []")
  case True
  then show ?thesis
    by (simp add: getVerifiedMissingComponents_def Let_def spawned_emit)
next
  case False
  let ?m = "potentialMismatches reg ex"
  let ?s2 = "emit (Progress (show_nat (length (exactMatches reg ex))
                                 @ '' components found with exact name matches''))
               (emit (Progress ''Analyzing component names...'') s)"
  let ?s3 = "emit (Progress (''Verifying '' @ show_nat (length ?m)
                                     @ '' components with potential name differences...'')) ?s2"
  obtain r s' where v: "verify_each P (length ?m) 0 ?m [] [] ?s3 = (Inr r, s')"
    and t: "spawned (snd s') = spawned (snd ?s3) @ map verify_command ?m"
    using verify_each_spawned [of P "length ?m" 0 ?m "[]" "[]" ?s3] by blast
  have t': "spawned (snd s') = spawned (snd s) @ map verify_command ?m"
    using t by (simp add: spawned_emit)
  obtain vm ai where r: "r = (vm, ai)" by (cases r)
  show ?thesis
    using False v t' r
    by (simp add: getVerifiedMissingComponents_def Let_def spawned_emit emit_all_def
          spawned_append spawned_map_ConsoleLog)
qed

lemma theme_not_hook_icon:
  "\<not> startsWith ''theme'' ''use-'' \<and> \<not> endsWith ''theme'' ''-icon''"
  by (simp add: endsWith_def)

lemma category_counts:
  "length names + length (filter (\<lambda>n. is_hook n \<and> is_icon n) names)
     = length (components_of names) + length (hooks_of names)
       + length (icons_of names) + length (theme_of names)"
  using theme_not_hook_icon
  by (induction names)
     (auto simp: components_of_def hooks_of_def icons_of_def theme_of_def is_hook_def is_icon_def)

lemma parse_args_zero:
  assumes "length argv \<le> 2"
    and "''--add-missing'' \<notin> set argv" and "''--add-all'' \<notin> set argv"
    and "''--force'' \<notin> set argv" and "''--diff'' \<notin> set argv"
  shows "parse_args argv = \<lparr> isAddMissing = False, isAddAll = False, isForce = False,
           isDiff = False, componentArg = None, hasNoArgs = True \<rparr>"
proof -
  have "\<And>arg. arg \<in> set argv \<Longrightarrow> Some arg = at_index argv 0 \<or> Some arg = at_index argv 1"
  proof -
    fix arg assume "arg \<in> set argv"
    then obtain k where "k < length argv" "argv ! k = arg" by (auto simp: in_set_conv_nth)
    with assms(1) have "k = 0 \<or> k = 1" by linarith
    with \<open>k < length argv\<close> \<open>argv ! k = arg\<close> show "Some arg = at_index argv 0 \<or> Some arg = at_index argv 1"
      by (auto simp: at_index_def)
  qed
  then have "find (\<lambda>arg. \<not> startsWith arg ''-'' \<and> Some arg \<noteq> at_index argv 0
                      \<and> Some arg \<noteq> at_index argv 1) argv = None"
    by (auto simp: find_None_iff)
  with assms show ?thesis by (simp add: parse_args_def)
qed

lemma verify_not_update: "verify_command n \<noteq> update_command m f"
proof
  assume "verify_command n = update_command m f"
  then have "last (verify_command n) = last (update_command m f)" by simp
  then show False
    by (simp add: verify_command_def update_command_def overwriteFlag_def)
qed

lemma session_zero_arguments:
  assumes "length argv \<le> 2"
    and "''--add-missing'' \<notin> set argv" and "''--add-all'' \<notin> set argv"
    and "''--force'' \<notin> set argv" and "''--diff'' \<notin> set argv"
    and "fetchRegistryComponents P w = Inr reg"
    and "getExistingComponents P w = Inr ex"
  shows "\<exists>missing t.
     session P argv keys w = (BreakdownScreen (RegistryBreakdown reg ex missing), t)
     \<and> spawned (snd t) = map verify_command (potentialMismatches reg ex)
     \<and> (\<forall>name force. update_command name force \<notin> set (spawned (snd t)))
     \<and> b_total (RegistryBreakdown reg ex missing)
           + length (filter (\<lambda>n. is_hook n \<and> is_icon n) reg)
         = length (b_components (RegistryBreakdown reg ex missing))
           + length (b_hooks (RegistryBreakdown reg ex missing))
           + length (b_icons (RegistryBreakdown reg ex missing))
           + length (b_theme (RegistryBreakdown reg ex missing))"
proof -
  let ?a = "parse_args argv"
  note a = parse_args_zero [OF assms(1-5)]
  let ?s1 = "emit (Progress ''Fetching registry components...'') (w, [])"
  let ?s2 = "emit_all [Progress (''Found '' @ show_nat (length reg) @ '' registry components''),
                       Progress (''Found '' @ show_nat (length ex) @ '' local components'')] ?s1"
  obtain vm s3 where g: "getVerifiedMissingComponents P reg ex ?s2 = (Inr vm, s3)"
    and t: "spawned (snd s3) = spawned (snd ?s2) @ map verify_command (potentialMismatches reg ex)"
    using getVerifiedMissingComponents_spawned [of P reg ex ?s2] by blast
  have t': "spawned (snd s3) = map verify_command (potentialMismatches reg ex)"
    using t by (simp add: emit_all_def emit_def)
  let ?t = "emit AppExit (emit (Progress ''Analysis complete'') s3)"
  have s: "session P argv keys w = (BreakdownScreen (RegistryBreakdown reg ex vm), ?t)"
    using assms(6,7) g
    by (simp add: session_def a truthy_def loadData_def load_steps_def Let_def emit_def
          dispatch_def render_app_def initial_app_def)
  have sp: "spawned (snd ?t) = map verify_command (potentialMismatches reg ex)"
    using t' by (simp add: spawned_emit)
  have nu: "\<forall>name force. update_command name force \<notin> set (spawned (snd ?t))"
    unfolding sp using verify_not_update by (auto simp: image_iff) metis
  have cc: "b_total (RegistryBreakdown reg ex vm)
           + length (filter (\<lambda>n. is_hook n \<and> is_icon n) reg)
         = length (b_components (RegistryBreakdown reg ex vm))
           + length (b_hooks (RegistryBreakdown reg ex vm))
           + length (b_icons (RegistryBreakdown reg ex vm))
           + length (b_theme (RegistryBreakdown reg ex vm))"
    using category_counts [of reg] by (simp add: RegistryBreakdown_def)
  from s sp nu cc show ?thesis by blast
qed

lemma example_registry:
  "fetchRegistryComponents example_platform () = Inr [''button'', ''card'', ''use-sparkle-icon'']"
  by code_simp

lemma example_mismatches:
  "potentialMismatches [''button'', ''card'', ''use-sparkle-icon''] [''button'', ''button'']
     = [''card'', ''use-sparkle-icon'']"
  by (simp add: potentialMismatches_def)

text \<open>
  C7, as the code has it. When the CLI is invoked with zero arguments, the summary view
  is shown; its total registry count plus the number of names that both start with
  \<open>use-\<close> and end with \<open>-icon\<close> equals the sum of the four category counts (so the total
  is the sum when no name is of both kinds). The Installer Driver is never invoked; the
  only subprocesses of the session are the Existence Verifier's probes, one for each
  registry name that is not a local name, in registry order.
\<close>

theorem zero_arguments_session:
  assumes "length argv \<le> 2"
    and "''--add-missing'' \<notin> set argv" and "''--add-all'' \<notin> set argv"
    and "''--force'' \<notin> set argv" and "''--diff'' \<notin> set argv"
    and "fetchRegistryComponents P w = Inr reg"
    and "getExistingComponents P w = Inr ex"
  shows "\<exists>missing t.
     session P argv keys w = (BreakdownScreen (RegistryBreakdown reg ex missing), t)
     \<and> spawned (snd t) = map verify_command (potentialMismatches reg ex)
     \<and> (\<forall>name force. update_command name force \<notin> set (spawned (snd t)))
     \<and> b_total (RegistryBreakdown reg ex missing)
           + length (filter (\<lambda>n. is_hook n \<and> is_icon n) reg)
         = length (b_components (RegistryBreakdown reg ex missing))
           + length (b_hooks (RegistryBreakdown reg ex missing))
           + length (b_icons (RegistryBreakdown reg ex missing))
           + length (b_theme (RegistryBreakdown reg ex missing))"
  using assms by (rule session_zero_arguments)

theorem zero_arguments_session_witness:
  "length [''node'', ''shadcn-ui.tsx''] \<le> 2
   \<and> fetchRegistryComponents example_platform () = Inr [''button'', ''card'', ''use-sparkle-icon'']
   \<and> getExistingComponents example_platform () = Inr [''button'', ''button'']
   \<and> (\<exists>missing t.
        session example_platform [''node'', ''shadcn-ui.tsx''] [] ()
          = (BreakdownScreen
               (RegistryBreakdown [''button'', ''card'', ''use-sparkle-icon'']
                  [''button'', ''button''] missing), t)
        \<and> spawned (snd t) = [verify_command ''card'', verify_command ''use-sparkle-icon''])"
proof -
  have "\<exists>missing t.
     session example_platform [''node'', ''shadcn-ui.tsx''] [] ()
       = (BreakdownScreen
            (RegistryBreakdown [''button'', ''card'', ''use-sparkle-icon'']
               [''button'', ''button''] missing), t)
     \<and> spawned (snd t)
         = map verify_command
             (potentialMismatches [''button'', ''card'', ''use-sparkle-icon'']
                [''button'', ''button''])
     \<and> (\<forall>name force. update_command name force \<notin> set (spawned (snd t)))
     \<and> b_total (RegistryBreakdown [''button'', ''card'', ''use-sparkle-icon'']
                  [''button'', ''button''] missing)
           + length (filter (\<lambda>n. is_hook n \<and> is_icon n) [''button'', ''card'', ''use-sparkle-icon''])
         = length (b_components (RegistryBreakdown [''button'', ''card'', ''use-sparkle-icon'']
                  [''button'', ''button''] missing))
           + length (b_hooks (RegistryBreakdown [''button'', ''card'', ''use-sparkle-icon'']
                  [''button'', ''button''] missing))
           + length (b_icons (RegistryBreakdown [''button'', ''card'', ''use-sparkle-icon'']
                  [''button'', ''button''] missing))
           + length (b_theme (RegistryBreakdown [''button'', ''card'', ''use-sparkle-icon'']
                  [''button'', ''button''] missing))"
    by (rule zero_arguments_session [OF _ _ _ _ _ example_registry example_scan]) simp_all
  then show ?thesis
    unfolding example_mismatches using example_registry example_scan by auto
qed

text \<open>
  C7 as stated fails on both counts: with the registry names \<open>button\<close>, \<open>card\<close> and
  \<open>use-sparkle-icon\<close> and only \<open>button\<close> installed, the summary shows a total of 3 while
  the four categories hold 2 + 1 + 1 + 0 = 4 names, and the session runs the installer
  twice to probe \<open>card\<close> and \<open>use-sparkle-icon\<close>.
\<close>

theorem zero_arguments_counterexample:
  "fst (session example_platform [''node'', ''shadcn-ui.tsx''] [] ())
     = BreakdownScreen
         \<lparr> b_total = 3,
           b_components = [''button'', ''card''],
           b_hooks = [''use-sparkle-icon''],
           b_icons = [''use-sparkle-icon''],
           b_theme = [],
           b_missing_components = [], b_missing_hooks = [], b_missing_icons = [],
           b_missing_theme = [],
           b_installed = [''button'', ''button''],
           b_verified_missing = 0 \<rparr>
   \<and> spawned (snd (snd (session example_platform [''node'', ''shadcn-ui.tsx''] [] ())))
     = [verify_command ''card'', verify_command ''use-sparkle-icon'']"
  by code_simp

end
